theory Spec2Isabelle
  imports Complex_Main "HOL-Library.Log_Nat"
begin

section \<open>Python values shared by the models\<close>

text \<open>
  Python integers are unbounded, so lengths, limits and token ids are \<open>int\<close>.
  Every exception the modelled code can raise is a constructor of \<open>error\<close>; a function
  that can raise returns \<open>error + 'a\<close> with \<open>Inl\<close> for the exception.
\<close>

datatype error =
    AssertionError | IndexError | KeyError | NameError | ValueError | RuntimeError | TypeError

text \<open>
  The slice \<open>xs[:n]\<close>: the first \<open>n\<close> elements for \<open>n \<ge> 0\<close>, all but the last
  \<open>-n\<close> elements for \<open>n < 0\<close> (nothing when \<open>-n\<close> exceeds the length).
\<close>

definition py_take :: "int \<Rightarrow> 'a list \<Rightarrow> 'a list" where
  "py_take n xs = (if 0 \<le> n then take (nat n) xs else take (length xs - nat (- n)) xs)"

text \<open>\<open>list(range(n))\<close> for a Python integer \<open>n\<close>: empty when \<open>n \<le> 0\<close>.\<close>

definition py_range :: "int \<Rightarrow> int list" where
  "py_range n = map int [0..<nat n]"

section \<open>ZsGPT2Tokenizer (zeroshot\_encoder/baseline/gpt2.py)\<close>

text \<open>
  The tokenizer object, as far as \<open>__call__\<close> reads it: the model's maximum length and
  the ids that \<open>enc_spec\<close> returns for the special tokens (begin of question, text and
  answer, end of sequence, padding, and the three type tokens).
\<close>

record tokenizer =
  model_max_length :: int
  boq_token_id :: int
  bot_token_id :: int
  boa_token_id :: int
  eos_token_id :: int
  pad_token_id :: int
  question_type_token_id :: int
  text_type_token_id :: int
  answer_type_token_id :: int

definition max_len_single_sentence :: "tokenizer \<Rightarrow> int" where
  "max_len_single_sentence tk = model_max_length tk - 2 * 3"

text \<open>
  The warnings of the module: the two calls of \<open>warn\<close> in \<open>call_single\<close>, each with the
  length of the text portion before and after cropping, and those of \<open>set_pred_n_true\<close>:
  the console warning with the number of begin-of-answer tokens found, the file logger's
  warning that follows it with the log record of the previous batch, and the \<open>warn\<close> for
  an answer without an end-of-sequence token.
\<close>

datatype warning =
    CroppedForInference int int
  | CroppedForTraining int int
  | GeneratedSeveralBoa nat
  | FileWarning string
  | AnswerNotFinished

text \<open>The dictionary that \<open>call_single\<close> returns.\<close>

record encoding =
  input_ids :: "int list"
  attention_mask :: "int list"
  token_type_ids :: "int list"
  position_ids :: "int list"
  dataset_id :: int

text \<open>
  Lines 178 to 201 of \<open>call_single\<close>: the cropping of the text portion. The arguments
  \<open>ids_ques\<close>, \<open>ids_text\<close> and \<open>ids_answ\<close> are what \<open>_call_paren\<close> (the GPT-2
  tokenizer of the library) returned for the question, the text and the answer;
  \<open>max_label_id_length\<close> is the cache entry of the dataset. The result is the text ids
  to use and the warnings emitted; a failed \<open>assert\<close> is \<open>Inl AssertionError\<close>.
\<close>

definition crop_text ::
  "tokenizer \<Rightarrow> bool \<Rightarrow> int \<Rightarrow> int list \<Rightarrow> int list \<Rightarrow> int list
    \<Rightarrow> error + (int list \<times> warning list)" where
  "crop_text tk for_prediction max_label_id_length ids_ques ids_text ids_answ =
    (let ln_q = int (length ids_ques);
         ln_t = int (length ids_text);
         ln_a = int (length ids_answ)
     in if for_prediction then
          (let ln_cont = (1 + ln_q + 1) + (1 + ln_t + 1) + 1;
               room = model_max_length tk - 1 - max_label_id_length
           in if ln_cont > room then
                (let ln_t' = room - ((1 + ln_q + 1) + (1 + 1) + 1)
                 in if \<not> ln_t' > 0 then Inl AssertionError
                    else Inr (py_take ln_t' ids_text, [CroppedForInference ln_t ln_t']))
              else Inr (ids_text, []))
        else
          (let ln_ids = ln_q + ln_t + ln_a
           in if ln_ids > max_len_single_sentence tk then
                (let ln_t' = max_len_single_sentence tk - (ln_q + ln_a)
                 in if \<not> ln_t' > 0 then Inl AssertionError
                    else Inr (py_take ln_t' ids_text, [CroppedForTraining ln_t ln_t']))
              else Inr (ids_text, [])))"

text \<open>
  Lines 203 to 220: the four sequences before padding, from the (possibly cropped) text
  ids. Both sanity checks of the source are kept as \<open>assert\<close>s.
\<close>

definition build_ids ::
  "tokenizer \<Rightarrow> bool \<Rightarrow> int list \<Rightarrow> int list \<Rightarrow> int list
    \<Rightarrow> error + (int list \<times> int list \<times> int list \<times> int list)" where
  "build_ids tk for_prediction ids_ques ids_text ids_answ =
    (let n_token = model_max_length tk;
         n_ques = 1 + length ids_ques + 1;
         n_text = 1 + length ids_text + 1;
         n_answ = 1 + length ids_answ + 1;
         n_cont = n_ques + n_text + 1;
         ids0 = [boq_token_id tk] @ ids_ques @ [eos_token_id tk]
              @ [bot_token_id tk] @ ids_text @ [eos_token_id tk]
              @ [boa_token_id tk] @ ids_answ @ [eos_token_id tk];
         tids0 = replicate n_ques (question_type_token_id tk)
               @ replicate n_text (text_type_token_id tk)
               @ replicate n_answ (answer_type_token_id tk);
         ids = (if for_prediction then py_take (- int (n_answ - 1)) ids0 else ids0);
         tids = (if for_prediction then py_take (- int (n_answ - 1)) tids0 else tids0)
     in if for_prediction \<and> length ids \<noteq> n_ques + n_text + 1 then Inl AssertionError
        else
          (let msks = replicate (length ids) 1;
               pids = py_range (int n_cont)
                    @ map (\<lambda>i. i + n_token) (py_range (int (length ids) - int n_cont))
           in if \<not> list_all (\<lambda>lst_ids. length lst_ids = length ids) [ids, tids, msks, pids]
              then Inl AssertionError
              else Inr (ids, msks, tids, pids)))"

text \<open>
  The local function \<open>pad\<close>: pad to \<open>max_length\<close>, truncate if necessary. The padding
  value is 0 for the attention mask and the position ids, the pad token id otherwise.
\<close>

definition pad :: "tokenizer \<Rightarrow> int \<Rightarrow> string \<Rightarrow> int list \<Rightarrow> int list" where
  "pad tk max_length name ints =
    (let int_pad = (if name = ''attention_mask'' then 0
                    else if name = ''position_ids'' then 0
                    else pad_token_id tk)
     in if int (length ints) > max_length then py_take max_length ints
        else ints @ replicate (nat (max_length - int (length ints))) int_pad)"

text \<open>
  \<open>call_single\<close>: crop, build, then pad each sequence unless \<open>for_prediction\<close>. The
  keyword argument \<open>max_length\<close> is \<open>None\<close> when the caller leaves it out, and then
  stands for \<open>model_max_length\<close>.
\<close>

definition call_single ::
  "tokenizer \<Rightarrow> int option \<Rightarrow> bool \<Rightarrow> int \<Rightarrow> int \<Rightarrow> int list \<Rightarrow> int list \<Rightarrow> int list
    \<Rightarrow> error + (encoding \<times> warning list)" where
  "call_single tk max_length_kw for_prediction max_label_id_length did ids_ques ids_text ids_answ =
    (let max_length = (case max_length_kw of None \<Rightarrow> model_max_length tk | Some m \<Rightarrow> m)
     in case crop_text tk for_prediction max_label_id_length ids_ques ids_text ids_answ of
          Inl e \<Rightarrow> Inl e
        | Inr (ids_text', ws) \<Rightarrow>
            (case build_ids tk for_prediction ids_ques ids_text' ids_answ of
               Inl e \<Rightarrow> Inl e
             | Inr (ids, msks, tids, pids) \<Rightarrow>
                 Inr (\<lparr> input_ids = (if for_prediction then ids else pad tk max_length ''input_ids'' ids),
                        attention_mask =
                          (if for_prediction then msks else pad tk max_length ''attention_mask'' msks),
                        token_type_ids =
                          (if for_prediction then tids else pad tk max_length ''token_type_ids'' tids),
                        position_ids =
                          (if for_prediction then pids else pad tk max_length ''position_ids'' pids),
                        dataset_id = did \<rparr>, ws)))"

subsection \<open>A small tokenizer for the worked examples\<close>

text \<open>
  A model of sixteen positions, so that the limit for a training sample is ten ids; the
  special ids are chosen apart from the ids of the examples.
\<close>

definition tk0 :: tokenizer where
  "tk0 = \<lparr> model_max_length = 16, boq_token_id = 101, bot_token_id = 102, boa_token_id = 103,
           eos_token_id = 100, pad_token_id = 107, question_type_token_id = 104,
           text_type_token_id = 105, answer_type_token_id = 106 \<rparr>"

text \<open>
  Two samples of two question ids, eight text ids and one answer id: the combined eleven
  ids exceed the limit of ten. \<open>enc_train\<close> is the result in training mode (the text
  cropped to seven ids) and \<open>enc_pred\<close> the result in prediction mode for a dataset whose
  longest label has two ids (the text cropped to six ids). \<open>enc_cut\<close> is the result in
  training mode with \<open>max_length = 8\<close>. \<open>enc_short\<close> is the result in training mode for a
  text of two ids, which fits.
\<close>

definition enc_train :: encoding where
  "enc_train = \<lparr> input_ids = [101, 1, 2, 100, 102, 3, 4, 5, 6, 7, 8, 9, 100, 103, 13, 100],
       attention_mask = [1, 1, 1, 1, 1, 1, 1, 1, 1, 1, 1, 1, 1, 1, 1, 1],
       token_type_ids =
         [104, 104, 104, 104, 105, 105, 105, 105, 105, 105, 105, 105, 105, 106, 106, 106],
       position_ids = [0, 1, 2, 3, 4, 5, 6, 7, 8, 9, 10, 11, 12, 13, 16, 17],
       dataset_id = 7 \<rparr>"

definition enc_pred :: encoding where
  "enc_pred = \<lparr> input_ids = [101, 1, 2, 100, 102, 3, 4, 5, 6, 7, 8, 100, 103],
       attention_mask = [1, 1, 1, 1, 1, 1, 1, 1, 1, 1, 1, 1, 1],
       token_type_ids = [104, 104, 104, 104, 105, 105, 105, 105, 105, 105, 105, 105, 106],
       position_ids = [0, 1, 2, 3, 4, 5, 6, 7, 8, 9, 10, 11, 12],
       dataset_id = 7 \<rparr>"

definition enc_cut :: encoding where
  "enc_cut = \<lparr> input_ids = [101, 1, 2, 100, 102, 3, 4, 5],
       attention_mask = [1, 1, 1, 1, 1, 1, 1, 1],
       token_type_ids = [104, 104, 104, 104, 105, 105, 105, 105],
       position_ids = [0, 1, 2, 3, 4, 5, 6, 7],
       dataset_id = 7 \<rparr>"

definition enc_short :: encoding where
  "enc_short = \<lparr> input_ids = [101, 1, 2, 100, 102, 3, 4, 100, 103, 13, 100, 107, 107, 107, 107, 107],
       attention_mask = [1, 1, 1, 1, 1, 1, 1, 1, 1, 1, 1, 0, 0, 0, 0, 0],
       token_type_ids =
         [104, 104, 104, 104, 105, 105, 105, 105, 106, 106, 106, 107, 107, 107, 107, 107],
       position_ids = [0, 1, 2, 3, 4, 5, 6, 7, 8, 16, 17, 0, 0, 0, 0, 0],
       dataset_id = 7 \<rparr>"

section \<open>Reading the label out of a generation (evaluate\_trained)\<close>

text \<open>
  A Python string is the list of its code points, and offsets and lengths count code
  points: the generation, the tokens and the label descriptions are lists over a type
  \<open>'c\<close> of code points. In the worked examples the text is ASCII and \<open>'c\<close> is \<open>char\<close>.
\<close>

text \<open>
  \<open>get_substr_indices\<close> belongs to the utility package, which is not among the sources;
  \<open>set_pred_n_true\<close> below takes it as a parameter, and what is proved of
  \<open>set_pred_n_true\<close> holds for every such function. For the worked examples,
  \<open>substr_indices s s_sub\<close> is the list of the start offsets of the successive
  occurrences of \<open>s_sub\<close> in \<open>s\<close>, from left to right and without overlap. The counter
  \<open>skip\<close> is the number of characters still covered by the occurrence found last.
\<close>

fun substr_indices_from :: "'c list \<Rightarrow> nat \<Rightarrow> nat \<Rightarrow> 'c list \<Rightarrow> nat list" where
  "substr_indices_from s_sub skip i [] = (if s_sub = [] \<and> skip = 0 then [i] else [])"
| "substr_indices_from s_sub skip i (c # cs) =
     (if 0 < skip then substr_indices_from s_sub (skip - 1) (Suc i) cs
      else if take (length s_sub) (c # cs) = s_sub
        then i # substr_indices_from s_sub (length s_sub - 1) (Suc i) cs
      else substr_indices_from s_sub 0 (Suc i) cs)"

definition substr_indices :: "'c list \<Rightarrow> 'c list \<Rightarrow> nat list" where
  "substr_indices s s_sub = substr_indices_from s_sub 0 0 s"

text \<open>
  \<open>lb2id\<close>: a \<open>defaultdict\<close> with default -1, updated with the lower-cased label
  descriptions mapped to their indices; of two labels with the same lower-cased
  description the later one stays. \<open>str.lower\<close> is the parameter \<open>lower\<close>.
\<close>

definition lb2id :: "('c list \<Rightarrow> 'c list) \<Rightarrow> 'c list list \<Rightarrow> 'c list \<Rightarrow> int" where
  "lb2id lower labels answer =
     (case map_of (rev (zip (map lower labels) (py_range (int (length labels))))) answer of
        None \<Rightarrow> - 1
      | Some i \<Rightarrow> i)"

text \<open>
  The end of \<open>set_pred_n_true\<close> (lines 739 to 748): the true label is the prediction when
  the sample's labels hold it and the first of the sample's labels otherwise; both are
  stored at \<open>i_sample\<close> in the arrays \<open>preds\<close> and \<open>trues\<close> and returned.
\<close>

definition store_pred_n_true ::
  "int \<Rightarrow> int list \<Rightarrow> int list \<times> int list \<Rightarrow> nat
    \<Rightarrow> error + ((int \<times> int) \<times> (int list \<times> int list))" where
  "store_pred_n_true id_pred lbs_true arrays i_sample =
     (if id_pred \<notin> set lbs_true \<and> lbs_true = [] then Inl IndexError
      else
        (let id_true = (if id_pred \<in> set lbs_true
                        then hd (filter (\<lambda>lb_id. lb_id = id_pred) lbs_true)
                        else hd lbs_true)
         in if \<not> (i_sample < length (fst arrays) \<and> i_sample < length (snd arrays))
            then Inl IndexError
            else Inr ((id_pred, id_true),
                      ((fst arrays)[i_sample := id_pred], (snd arrays)[i_sample := id_true]))))"

text \<open>
  \<open>set_pred_n_true\<close>, with the helper \<open>get_substr_indices\<close> and \<open>str.lower\<close> as its
  first two parameters. The result is the warnings emitted, in order, and then either the
  exception raised or the pair returned with the updated arrays. \<open>d_log\<close> is the variable
  of the enclosing function that the branch for several begin-of-answer tokens reads: it
  is assigned at the end of each batch, so it is \<open>None\<close> (unbound) during the first batch
  and holds the record of the previous batch afterwards.
\<close>

definition set_pred_n_true ::
  "('c list \<Rightarrow> 'c list \<Rightarrow> nat list) \<Rightarrow> ('c list \<Rightarrow> 'c list) \<Rightarrow> 'c list \<Rightarrow> 'c list
    \<Rightarrow> 'c list list \<Rightarrow> string option \<Rightarrow> int list \<Rightarrow> int list \<times> int list \<Rightarrow> 'c list \<Rightarrow> nat
    \<Rightarrow> warning list \<times> (error + ((int \<times> int) \<times> (int list \<times> int list)))" where
  "set_pred_n_true get_substr_indices lower boa_token eos_token labels d_log lbs_true arrays
     generated i_sample =
     (let idxs_boa = get_substr_indices generated boa_token
      in if idxs_boa = [] then ([], Inl IndexError)
         else
           (let answer_with_eos = drop (hd idxs_boa + length boa_token) generated
            in if length idxs_boa > 1 then
                 (case d_log of
                    None \<Rightarrow> ([GeneratedSeveralBoa (length idxs_boa)], Inl NameError)
                  | Some d \<Rightarrow>
                      ([GeneratedSeveralBoa (length idxs_boa), FileWarning d],
                       store_pred_n_true (- 1) lbs_true arrays i_sample))
               else
                 (let idxs_eot = get_substr_indices answer_with_eos eos_token
                  in if idxs_eot = [] then
                       ([AnswerNotFinished], store_pred_n_true (- 1) lbs_true arrays i_sample)
                     else
                       (let answer = lower (take (hd idxs_eot) answer_with_eos);
                            id_pred = lb2id lower labels answer
                        in if id_pred = - 1
                              \<and> \<not> list_all (\<lambda>lb. lower lb \<noteq> lower answer) labels
                           then ([], Inl AssertionError)
                           else ([], store_pred_n_true id_pred lbs_true arrays i_sample)))))"

text \<open>
  A lowering function for the worked examples: the letters \<open>A\<close> to \<open>Z\<close> go to \<open>a\<close> to
  \<open>z\<close>, every other character stays.
\<close>

definition lower_ascii :: "string \<Rightarrow> string" where
  "lower_ascii s =
     map (\<lambda>c. if (65 :: nat) \<le> of_char c \<and> of_char c \<le> (90 :: nat)
              then char_of (of_char c + (32 :: nat)) else c) s"

section \<open>TrainStrategy2PairMap (zeroshot\_classifier/util/util.py)\<close>

text \<open>
  Modelled from the spec: the accepted values of \<open>training_strategy\<close>, which the
  constructor checks with \<open>ca\<close>, are listed in the package's configuration file, which is
  not among the sources. They are taken to be the five strategies that \<open>__call__\<close>
  distinguishes.
\<close>

definition training_strategies :: "string list" where
  "training_strategies =
     [''vanilla'', ''implicit'', ''implicit-on-text-encode-aspect'',
      ''implicit-on-text-encode-sep'', ''explicit'']"

text \<open>
  An object of the class: its strategy, and the two class attributes read from the
  configuration (the separator token and the dictionary from aspects to aspect tokens).
\<close>

record pair_map =
  train_strategy :: string
  sep_token :: string
  aspect2aspect_token :: "string \<rightharpoonup> string"

definition pair_map_init ::
  "string \<Rightarrow> (string \<rightharpoonup> string) \<Rightarrow> string \<Rightarrow> error + pair_map" where
  "pair_map_init sep a2a strategy =
     (if strategy \<in> set training_strategies
      then Inr \<lparr> train_strategy = strategy, sep_token = sep, aspect2aspect_token = a2a \<rparr>
      else Inl ValueError)"

text \<open>
  An aspect is a string or \<open>None\<close> (the default). In an f-string \<open>None\<close> is written
  \<open>None\<close>; as a key it is in no dictionary of the configuration, whose keys are strings.
\<close>

definition py_str :: "string option \<Rightarrow> string" where
  "py_str aspect = (case aspect of None \<Rightarrow> ''None'' | Some a \<Rightarrow> a)"

definition lookup_aspect_token :: "pair_map \<Rightarrow> string option \<Rightarrow> error + string" where
  "lookup_aspect_token self aspect =
     (case aspect of
        None \<Rightarrow> Inl KeyError
      | Some a \<Rightarrow> (case aspect2aspect_token self a of None \<Rightarrow> Inl KeyError | Some tok \<Rightarrow> Inr tok))"

text \<open>
  \<open>__call__\<close> returns the query function \<open>txt_n_lbs2query\<close> of the strategy, or fails its
  \<open>assert\<close>. The query function of \<open>implicit-on-text-encode-aspect\<close> looks the aspect up
  for each label, so it raises \<open>KeyError\<close> at the first label when the aspect is no key.
\<close>

definition pair_map_call ::
  "pair_map \<Rightarrow> string option \<Rightarrow> error + (string \<Rightarrow> string list \<Rightarrow> error + string list list)" where
  "pair_map_call self aspect =
     (if train_strategy self \<in> set [''vanilla'', ''explicit''] then
        Inr (\<lambda>txt lbs. Inr (map (\<lambda>lb. [txt, lb]) lbs))
      else if train_strategy self = ''implicit'' then
        Inr (\<lambda>txt lbs. Inr (map (\<lambda>lb. [txt, lb @ '' '' @ py_str aspect]) lbs))
      else if train_strategy self = ''implicit-on-text-encode-aspect'' then
        Inr (\<lambda>txt lbs.
               if lbs = [] then Inr []
               else (case lookup_aspect_token self aspect of
                       Inl e \<Rightarrow> Inl e
                     | Inr tok \<Rightarrow> Inr (map (\<lambda>lb. [tok @ '' '' @ txt, lb]) lbs)))
      else if train_strategy self \<noteq> ''implicit-on-text-encode-sep'' then Inl AssertionError
      else
        Inr (\<lambda>txt lbs.
               Inr (map (\<lambda>lb. [py_str aspect @ '' '' @ sep_token self @ '' '' @ txt, lb]) lbs)))"

definition map_label :: "pair_map \<Rightarrow> string \<Rightarrow> string option \<Rightarrow> error + string" where
  "map_label self label aspect =
     (if train_strategy self = ''implicit'' then
        (case aspect of None \<Rightarrow> Inl AssertionError | Some a \<Rightarrow> Inr (label @ '' '' @ a))
      else Inr label)"

definition map_text :: "pair_map \<Rightarrow> string \<Rightarrow> string option \<Rightarrow> error + string" where
  "map_text self text aspect =
     (if train_strategy self \<in> set [''implicit-on-text-encode-aspect'', ''implicit-on-text-encode-sep'']
      then
        (case aspect of
           None \<Rightarrow> Inl AssertionError
         | Some a \<Rightarrow>
             if train_strategy self = ''implicit-on-text-encode-aspect'' then
               (case aspect2aspect_token self a of
                  None \<Rightarrow> Inl KeyError
                | Some tok \<Rightarrow> Inr (tok @ '' '' @ text))
             else Inr (a @ '' '' @ sep_token self @ '' '' @ text))
      else Inr text)"

text \<open>An object for the worked examples, with the aspect \<open>topic\<close> in its dictionary.\<close>

definition pm0 :: "string \<Rightarrow> pair_map" where
  "pm0 strategy = \<lparr> train_strategy = strategy, sep_token = ''<|ASPECT-SEP|>'',
                    aspect2aspect_token = [''topic'' \<mapsto> ''<|topic|>''] \<rparr>"

section \<open>Batches of equal length (evaluate\_trained, lines 644 to 680)\<close>

text \<open>
  \<open>list(range(start, stop, step))\<close>: \<open>ValueError\<close> for a step of zero, and otherwise
  \<open>start\<close>, \<open>start + step\<close>, ... as long as \<open>stop\<close> is not reached.
\<close>

definition py_range3 :: "int \<Rightarrow> int \<Rightarrow> int \<Rightarrow> error + int list" where
  "py_range3 start stop step =
     (if step = 0 then Inl ValueError
      else if 0 < step then
        Inr (map (\<lambda>j. start + int j * step) [0..<nat ((stop - start + step - 1) div step)])
      else
        Inr (map (\<lambda>j. start + int j * step) [0..<nat ((start - stop - step - 1) div (- step))]))"

text \<open>
  The slice \<open>xs[st:end]\<close>: a negative bound counts from the end, and both bounds are
  clipped to the list.
\<close>

definition py_bound :: "nat \<Rightarrow> int \<Rightarrow> nat" where
  "py_bound n i = (if i < 0 then nat (max 0 (i + int n)) else min (nat i) n)"

definition py_slice :: "int \<Rightarrow> int \<Rightarrow> 'a list \<Rightarrow> 'a list" where
  "py_slice st en xs = drop (py_bound (length xs) st) (take (py_bound (length xs) en) xs)"

text \<open>
  \<open>np.split(ary, indices)\<close> for a sequence of indices: the division points are 0, the
  indices and the length, and the parts are the slices between neighbouring points.
\<close>

fun split_from :: "int \<Rightarrow> int list \<Rightarrow> 'a list \<Rightarrow> 'a list list" where
  "split_from st [] xs = [py_slice st (int (length xs)) xs]"
| "split_from st (en # indices) xs = py_slice st en xs # split_from en indices xs"

definition np_split :: "'a list \<Rightarrow> int list \<Rightarrow> 'a list list" where
  "np_split ary indices = split_from 0 indices ary"

text \<open>\<open>np.unique\<close>: the distinct values in increasing order.\<close>

definition np_unique :: "nat list \<Rightarrow> nat list" where
  "np_unique xs = sort (remdups xs)"

text \<open>
  \<open>np.where(len_ids == ln)[0]\<close>: the indices that hold the length \<open>ln\<close>, in increasing
  order. The length is written \<open>len\<close> here, \<open>ln\<close> being the logarithm.
\<close>

definition np_where_eq :: "nat list \<Rightarrow> nat \<Rightarrow> nat list" where
  "np_where_eq len_ids len = filter (\<lambda>i. len_ids ! i = len) [0..<length len_ids]"

text \<open>
  The batches of one group of indices: the group itself when it has at most
  \<open>batch_size\<close> members, and otherwise its split at \<open>batch_size\<close>, \<open>2 * batch_size\<close>, ...
\<close>

definition group_batches :: "int \<Rightarrow> nat list \<Rightarrow> error + nat list list" where
  "group_batches batch_size idxs =
     (if int (length idxs) > batch_size then
        (case py_range3 batch_size (int (length idxs)) batch_size of
           Inl e \<Rightarrow> Inl e
         | Inr indices \<Rightarrow> Inr (np_split idxs indices))
      else Inr [idxs])"

text \<open>\<open>sum(..., start=[])\<close> over results that may raise: the first exception ends the sum.\<close>

fun sum_lists :: "'a list \<Rightarrow> (error + 'a list) list \<Rightarrow> error + 'a list" where
  "sum_lists acc [] = Inr acc"
| "sum_lists acc (Inl e # rs) = Inl e"
| "sum_lists acc (Inr xs # rs) = sum_lists (acc @ xs) rs"

text \<open>
  \<open>idxs_batches\<close>, from the token lengths \<open>len_ids\<close> of the samples of the dataset and
  the batch size.
\<close>

definition idxs_batches :: "nat list \<Rightarrow> int \<Rightarrow> error + nat list list" where
  "idxs_batches len_ids batch_size =
     (let uniq_lens = np_unique len_ids;
          ln2idxs = map (np_where_eq len_ids) uniq_lens
      in sum_lists [] (map (group_batches batch_size) ln2idxs))"

section \<open>The doubled positional embedding (ZsGPT2Model and ZsGPT2LMHeadModel)\<close>

text \<open>
  An embedding matrix is the list of its rows. The rows are of an arbitrary type: the
  code allocates and copies them and computes nothing with them. \<open>nn.Embedding(n, d)\<close>
  allocates \<open>n\<close> rows; what they hold (random values at first, then what loading a
  checkpoint leaves there) is the parameter \<open>init\<close>.
\<close>

definition nn_Embedding :: "nat \<Rightarrow> (nat \<Rightarrow> 'r) \<Rightarrow> 'r list" where
  "nn_Embedding num_embeddings init = map init [0..<num_embeddings]"

text \<open>\<open>ZsGPT2Model.__init__\<close>: the matrix \<open>wpe\<close> that replaces the one of \<open>GPT2Model\<close>.\<close>

definition ZsGPT2Model_wpe :: "nat \<Rightarrow> (nat \<Rightarrow> 'r) \<Rightarrow> 'r list" where
  "ZsGPT2Model_wpe max_position_embeddings init =
     nn_Embedding (max_position_embeddings * 2) init"

text \<open>
  The assignment \<open>weight[lo:hi, :] = src\<close> of a matrix to a block of rows: the rows are
  replaced when \<open>src\<close> has as many rows as the block, one row is repeated over the
  block, and any other shape is an error of the library.
\<close>

definition assign_rows :: "nat \<Rightarrow> nat \<Rightarrow> 'r list \<Rightarrow> 'r list \<Rightarrow> error + 'r list" where
  "assign_rows lo hi src weight =
     (let n = length (drop lo (take hi weight))
      in if length src = n then Inr (take lo weight @ src @ drop hi weight)
         else if length src = 1 then Inr (take lo weight @ replicate n (hd src) @ drop hi weight)
         else Inl RuntimeError)"

datatype model_warning = WrongModelSize

text \<open>
  \<open>ZsGPT2LMHeadModel.from_pretrained\<close>, as far as the positional embedding goes. \<open>md_\<close>
  is built by \<open>ZsGPT2Model\<close> from the configuration, and \<open>init\<close> is what its matrix holds
  after loading; \<open>md_ori\<close> is a \<open>GPT2LMHeadModel\<close> of the same configuration, whose matrix
  has \<open>max_position_embeddings\<close> rows holding \<open>pretrained\<close>. The result is the matrix of
  the returned model and the warnings emitted.
\<close>

definition from_pretrained ::
  "bool \<Rightarrow> nat \<Rightarrow> (nat \<Rightarrow> 'r) \<Rightarrow> (nat \<Rightarrow> 'r) \<Rightarrow> error + ('r list \<times> model_warning list)" where
  "from_pretrained is_zs_gpt2 max_position_embeddings init pretrained =
     (if is_zs_gpt2 then Inr (ZsGPT2Model_wpe max_position_embeddings init, [])
      else
        (let md_weight = ZsGPT2Model_wpe max_position_embeddings init;
             weight_pretrained = nn_Embedding max_position_embeddings pretrained;
             n_tok = length md_weight
         in if n_tok = 1024 * 2 then
              (case assign_rows 0 1024 weight_pretrained md_weight of
                 Inl e \<Rightarrow> Inl e
               | Inr w1 \<Rightarrow>
                   (case assign_rows 1024 n_tok weight_pretrained w1 of
                      Inl e \<Rightarrow> Inl e
                    | Inr w2 \<Rightarrow> Inr (w2, [])))
            else Inr (md_weight, [WrongModelSize])))"

section \<open>eval\_res2df (zeroshot\_classifier/util/util.py)\<close>

text \<open>
  What \<open>sklearn.metrics.classification_report\<close> returns: a text by default, and with
  \<open>output_dict=True\<close> a dictionary that holds under \<open>accuracy\<close>, when it has that key, a
  number, and under every other key (the labels and the averages, \<open>micro avg\<close> among
  them) a dictionary from metric names to numbers, in the order \<open>precision\<close>, \<open>recall\<close>,
  \<open>f1-score\<close>, \<open>support\<close>. The numbers are floating-point values of the library; their
  type is the parameter \<open>'f\<close>.
\<close>

datatype 'f report =
    ReportText string
  | ReportDict "'f option" "(string \<times> (string \<times> 'f) list) list"

text \<open>
  The accuracy that \<open>eval_res2df\<close> returns as the second component of its result, from
  the report that the library returned (the data frame of the first component is the
  library's rendering of the same report). The floating-point operations are parameters:
  \<open>float_lit m e\<close> is the value of the literal \<open>m\<close>e\<open>e\<close> (so \<open>float_lit 1 (- 8)\<close> is
  \<open>1e-8\<close>), \<open>isclose v w t\<close> is \<open>math.isclose(v, w, abs_tol=t)\<close> and \<open>round_ndigits v n\<close>
  is \<open>round(v, n)\<close>. A text cannot be indexed with a string: both lookups raise
  \<open>TypeError\<close> on it. With no value left after \<open>support\<close> is dropped the \<open>assert\<close> holds
  and \<open>vals[0]\<close> raises \<open>IndexError\<close>.
\<close>

definition eval_res2df ::
  "(int \<Rightarrow> int \<Rightarrow> 'f) \<Rightarrow> ('f \<Rightarrow> 'f \<Rightarrow> 'f \<Rightarrow> bool) \<Rightarrow> ('f \<Rightarrow> int \<Rightarrow> 'f) \<Rightarrow> 'f report \<Rightarrow> bool
    \<Rightarrow> error + 'f" where
  "eval_res2df float_lit isclose round_ndigits report pretty =
     (case report of
        ReportText s \<Rightarrow> Inl TypeError
      | ReportDict accuracy rows \<Rightarrow>
          (case (case accuracy of
                   Some acc \<Rightarrow> Inr acc
                 | None \<Rightarrow>
                     (case map_of rows ''micro avg'' of
                        None \<Rightarrow> Inl KeyError
                      | Some items \<Rightarrow>
                          (let vals = map snd (filter (\<lambda>(k, v). k \<noteq> ''support'') items)
                           in if \<not> list_all (\<lambda>v. isclose v (vals ! 0) (float_lit 1 (- 8))) vals
                              then Inl AssertionError
                              else if vals = [] then Inl IndexError
                              else Inr (vals ! 0)))) of
             Inl e \<Rightarrow> Inl e
           | Inr acc \<Rightarrow> Inr (if pretty then round_ndigits acc 3 else acc)))"

subsection \<open>Double-precision numbers for the worked examples\<close>

text \<open>
  A finite double is the rational number it denotes. \<open>double_rn\<close> rounds a rational to
  the nearest double, ties to the even significand: 53 bits above the exponent
  \<open>- 1074\<close> of the smallest subnormal (numbers beyond the largest double are not
  considered). \<open>half_even\<close> rounds to the nearest integer, ties to the even one.
\<close>

definition pow2 :: "int \<Rightarrow> rat" where
  "pow2 k = (if 0 \<le> k then 2 ^ nat k else 1 / 2 ^ nat (- k))"

definition pow10 :: "int \<Rightarrow> rat" where
  "pow10 k = (if 0 \<le> k then 10 ^ nat k else 1 / 10 ^ nat (- k))"

definition half_even :: "rat \<Rightarrow> int" where
  "half_even y =
     (let f = \<lfloor>y\<rfloor>; r = y - of_int f
      in if r < 1 / 2 then f else if 1 / 2 < r then f + 1 else if even f then f else f + 1)"

definition double_rn :: "rat \<Rightarrow> rat" where
  "double_rn x =
     (if x = 0 then 0
      else
        (let d = bitlen (fst (quotient_of \<bar>x\<bar>)) - bitlen (snd (quotient_of \<bar>x\<bar>));
             e = (if pow2 d \<le> \<bar>x\<bar> then d else d - 1);
             q = max (e - 52) (- 1074)
         in of_int (half_even (x / pow2 q)) * pow2 q))"

text \<open>
  A decimal literal denotes the double nearest to it. \<open>math.isclose\<close> with the default
  \<open>rel_tol\<close> of \<open>1e-09\<close> holds for equal numbers and else compares the rounded difference
  with the rounded relative tolerances and with \<open>abs_tol\<close>. \<open>round(x, ndigits)\<close> rounds
  the exact value of \<open>x\<close> to \<open>ndigits\<close> decimals, ties to even, and returns the double
  nearest to that decimal.
\<close>

definition double_lit :: "int \<Rightarrow> int \<Rightarrow> rat" where
  "double_lit m e = double_rn (of_int m * pow10 e)"

definition isclose_double :: "rat \<Rightarrow> rat \<Rightarrow> rat \<Rightarrow> bool" where
  "isclose_double a b abs_tol =
     (a = b \<or>
      (let rel_tol = double_lit 1 (- 9); diff = \<bar>double_rn (b - a)\<bar>
       in diff \<le> \<bar>double_rn (rel_tol * b)\<bar> \<or> diff \<le> \<bar>double_rn (rel_tol * a)\<bar> \<or>
          diff \<le> abs_tol))"

definition round_double :: "rat \<Rightarrow> int \<Rightarrow> rat" where
  "round_double x ndigits = double_rn (of_int (half_even (x * pow10 ndigits)) / pow10 ndigits)"

section \<open>The loop over the datasets (evaluate\_trained, lines 614 to 631 and 765 to 778)\<close>

text \<open>
  An entry of \<open>config('UTCD.datasets')\<close>, as far as the loop reads it: the name \<open>dnm\<close> (the key
  of the entry), the flag \<open>out_of_domain\<close> and the labels of the test split.
\<close>

record dataset_info =
  dnm :: string
  out_of_domain :: bool
  test_labels :: "string list"

text \<open>
  What the loop does to the outside: it writes a file, given by its directory and its
  name, with the transposed frame of a classification report. The report is the
  library's; it is kept as the arguments of the call (true labels, predictions,
  \<open>labels\<close>, \<open>target_names\<close>).
\<close>

datatype effect = WriteCsv string string "int list" "int list" "int list" "string list"

datatype outcome = Returned | Raised error | Exited int

text \<open>
  The loop. Filling \<open>trues\<close> and \<open>preds\<close> for a dataset (tokenizing, batching,
  generating and parsing) is the parameter \<open>run\<close>, which returns both arrays or raises.
  A dataset of the other domain is skipped, and so is, by the debugging \<open>continue\<close>, every
  dataset but \<open>multi_eurlex\<close>; after the file is written the process exits with status 1.
\<close>

fun evaluate_trained ::
  "bool \<Rightarrow> string \<Rightarrow> (dataset_info \<Rightarrow> error + (int list \<times> int list)) \<Rightarrow> dataset_info list
    \<Rightarrow> effect list \<times> outcome" where
  "evaluate_trained in_domain path_dir run [] = ([], Returned)"
| "evaluate_trained in_domain path_dir run (d # ds) =
     (if out_of_domain d = (\<not> in_domain) then
        (if dnm d \<noteq> ''multi_eurlex'' then evaluate_trained in_domain path_dir run ds
         else
           (case run d of
              Inl e \<Rightarrow> ([], Raised e)
            | Inr (trues, preds) \<Rightarrow>
                ([WriteCsv path_dir (dnm d @ ''.csv'') trues preds
                    (- 1 # py_range (int (length (test_labels d))))
                    (''Label not in dataset'' # test_labels d)],
                 Exited 1)))
      else evaluate_trained in_domain path_dir run ds)"

text \<open>
  Four datasets for the worked example, the first of the one domain and the others of
  the other domain, and an evaluation that returns three true labels and three
  predictions for any dataset.
\<close>

definition datasets0 :: "dataset_info list" where
  "datasets0 =
     [\<lparr> dnm = ''ag_news'', out_of_domain = False, test_labels = [''World'', ''Sports''] \<rparr>,
      \<lparr> dnm = ''patent'', out_of_domain = True, test_labels = [''chemistry'', ''physics''] \<rparr>,
      \<lparr> dnm = ''multi_eurlex'', out_of_domain = True, test_labels = [''law'', ''trade''] \<rparr>,
      \<lparr> dnm = ''yelp'', out_of_domain = True, test_labels = [''negative'', ''positive''] \<rparr>]"

definition run0 :: "dataset_info \<Rightarrow> error + (int list \<times> int list)" where
  "run0 d = Inr ([0, 1, 1], [0, - 1, 1])"

section \<open>Properties of the tokenizer\<close>

subsection \<open>Slices and ranges\<close>

lemma py_take_neg_append: "ys \<noteq> [] \<Longrightarrow> py_take (- int (length ys)) (xs @ ys) = xs"
  by (cases ys) (simp_all add: py_take_def)

lemma py_range_int: "py_range (int n) = map int [0..<n]"
  by (simp add: py_range_def)

lemma py_range_diff: "py_range (int a - int b) = map int [0..<a - b]"
proof -
  have "nat (int a - int b) = a - b" by arith
  then show ?thesis by (simp add: py_range_def)
qed

subsection \<open>The built sequences\<close>

text \<open>
  Both sanity checks of \<open>build_ids\<close> always hold, so it returns; these are the four
  sequences in training mode and in prediction mode.
\<close>

lemma build_ids_train:
  "build_ids tk False q t a =
     Inr (boq_token_id tk # q @ [eos_token_id tk, bot_token_id tk] @ t
            @ [eos_token_id tk, boa_token_id tk] @ a @ [eos_token_id tk],
          replicate (length q + length t + length a + 6) 1,
          replicate (length q + 2) (question_type_token_id tk)
            @ replicate (length t + 2) (text_type_token_id tk)
            @ replicate (length a + 2) (answer_type_token_id tk),
          map int [0..<length q + length t + 5]
            @ map (\<lambda>i. int i + model_max_length tk) [0..<length a + 1])"
proof -
  have n: "1 + length q + 1 + (1 + length t + 1) + 1 = length q + length t + 5" by simp
  have d: "length ([boq_token_id tk] @ q @ [eos_token_id tk] @ [bot_token_id tk] @ t
              @ [eos_token_id tk] @ [boa_token_id tk] @ a @ [eos_token_id tk])
            - (length q + length t + 5) = length a + 1" by simp
  have l: "length ([boq_token_id tk] @ q @ [eos_token_id tk] @ [bot_token_id tk] @ t
              @ [eos_token_id tk] @ [boa_token_id tk] @ a @ [eos_token_id tk])
            = length q + length t + length a + 6" by simp
  show ?thesis
    unfolding build_ids_def Let_def n py_range_int py_range_diff d
    by (simp add: o_def l del: replicate_Suc upt_Suc)
qed

lemma build_ids_pred:
  "build_ids tk True q t a =
     Inr (boq_token_id tk # q @ [eos_token_id tk, bot_token_id tk] @ t
            @ [eos_token_id tk, boa_token_id tk],
          replicate (length q + length t + 5) 1,
          replicate (length q + 2) (question_type_token_id tk)
            @ replicate (length t + 2) (text_type_token_id tk)
            @ [answer_type_token_id tk],
          map int [0..<length q + length t + 5])"
proof -
  have a: "py_take (- int (1 + length a + 1 - 1))
            ([boq_token_id tk] @ q @ [eos_token_id tk] @ [bot_token_id tk] @ t @ [eos_token_id tk]
              @ [boa_token_id tk] @ a @ [eos_token_id tk])
          = boq_token_id tk # q @ [eos_token_id tk, bot_token_id tk] @ t
            @ [eos_token_id tk, boa_token_id tk]"
    using py_take_neg_append [of "a @ [eos_token_id tk]"
        "boq_token_id tk # q @ [eos_token_id tk, bot_token_id tk] @ t @ [eos_token_id tk, boa_token_id tk]"]
    by simp
  have b: "py_take (- int (1 + length a + 1 - 1))
            (replicate (1 + length q + 1) (question_type_token_id tk)
               @ replicate (1 + length t + 1) (text_type_token_id tk)
               @ replicate (1 + length a + 1) (answer_type_token_id tk))
          = replicate (length q + 2) (question_type_token_id tk)
            @ replicate (length t + 2) (text_type_token_id tk)
            @ [answer_type_token_id tk]"
    using py_take_neg_append [of "replicate (length a + 1) (answer_type_token_id tk)"
        "replicate (length q + 2) (question_type_token_id tk)
            @ replicate (length t + 2) (text_type_token_id tk)
            @ [answer_type_token_id tk]"]
    by (simp add: replicate_append_same)
  have n: "1 + length q + 1 + (1 + length t + 1) + 1 = length q + length t + 5" by simp
  have l: "length (boq_token_id tk # q @ [eos_token_id tk, bot_token_id tk] @ t
            @ [eos_token_id tk, boa_token_id tk]) = length q + length t + 5" by simp
  show ?thesis
    unfolding build_ids_def Let_def a b n py_range_int py_range_diff l
    by (simp del: replicate_Suc upt_Suc)
qed


subsection \<open>The cropping step\<close>

text \<open>
  When the cropping step returns, either the sample fits and the text is left alone
  without a warning, or the text is cut to a proper, non-empty prefix that fills the
  limit exactly, with one warning.
\<close>

lemma crop_text_pred:
  assumes "crop_text tk True L q t a = Inr (t', ws)"
  shows "(t' = t \<and> ws = [] \<and>
           int (length q) + int (length t) + 5 \<le> model_max_length tk - 1 - L)
       \<or> (\<exists>k. 0 < k \<and> k < length t \<and> t' = take k t \<and>
             ws = [CroppedForInference (int (length t)) (int k)] \<and>
             int (length q) + int k + 5 = model_max_length tk - 1 - L)"
proof -
  let ?room = "model_max_length tk - 1 - L"
  let ?k = "?room - ((1 + int (length q) + 1) + (1 + 1) + 1)"
  show ?thesis
  proof (cases "(1 + int (length q) + 1) + (1 + int (length t) + 1) + 1 > ?room")
    case False
    with assms show ?thesis by (simp add: crop_text_def Let_def)
  next
    case crop: True
    with assms have pos: "0 < ?k" and t': "t' = py_take ?k t"
      and ws: "ws = [CroppedForInference (int (length t)) ?k]"
      by (auto simp: crop_text_def Let_def split: if_splits)
    from pos crop have lt: "nat ?k < length t" by linarith
    from pos have "int (nat ?k) = ?k" by simp
    with pos lt t' ws have "0 < nat ?k \<and> nat ?k < length t \<and> t' = take (nat ?k) t \<and>
        ws = [CroppedForInference (int (length t)) (int (nat ?k))] \<and>
        int (length q) + int (nat ?k) + 5 = ?room"
      by (simp add: py_take_def)
    then show ?thesis by blast
  qed
qed

lemma crop_text_train:
  assumes "crop_text tk False L q t a = Inr (t', ws)"
  shows "(t' = t \<and> ws = [] \<and>
           int (length q) + int (length t) + int (length a) \<le> model_max_length tk - 6)
       \<or> (\<exists>k. 0 < k \<and> k < length t \<and> t' = take k t \<and>
             ws = [CroppedForTraining (int (length t)) (int k)] \<and>
             int (length q) + int k + int (length a) = model_max_length tk - 6)"
proof -
  let ?lim = "max_len_single_sentence tk"
  let ?k = "?lim - (int (length q) + int (length a))"
  have lim: "?lim = model_max_length tk - 6" by (simp add: max_len_single_sentence_def)
  show ?thesis
  proof (cases "int (length q) + int (length t) + int (length a) > ?lim")
    case nocrop: False
    with assms have "t' = t \<and> ws = []" by (simp add: crop_text_def Let_def)
    with nocrop lim show ?thesis by simp
  next
    case crop: True
    with assms have pos: "0 < ?k" and t': "t' = py_take ?k t"
      and ws: "ws = [CroppedForTraining (int (length t)) ?k]"
      by (auto simp: crop_text_def Let_def split: if_splits)
    from pos crop have lt: "nat ?k < length t" by linarith
    from pos have "int (nat ?k) = ?k" by simp
    with pos lt t' ws lim have "0 < nat ?k \<and> nat ?k < length t \<and> t' = take (nat ?k) t \<and>
        ws = [CroppedForTraining (int (length t)) (int (nat ?k))] \<and>
        int (length q) + int (nat ?k) + int (length a) = model_max_length tk - 6"
      by (simp add: py_take_def)
    then show ?thesis by blast
  qed
qed

subsection \<open>Returning and raising\<close>

lemma call_single_Inr:
  assumes "call_single tk ml fp L did q t a = Inr (out, ws)"
  obtains t' ids msks tids pids where
    "crop_text tk fp L q t a = Inr (t', ws)"
    "build_ids tk fp q t' a = Inr (ids, msks, tids, pids)"
    "input_ids out = (if fp then ids else pad tk (case ml of None \<Rightarrow> model_max_length tk | Some m \<Rightarrow> m) ''input_ids'' ids)"
    "attention_mask out = (if fp then msks else pad tk (case ml of None \<Rightarrow> model_max_length tk | Some m \<Rightarrow> m) ''attention_mask'' msks)"
    "token_type_ids out = (if fp then tids else pad tk (case ml of None \<Rightarrow> model_max_length tk | Some m \<Rightarrow> m) ''token_type_ids'' tids)"
    "position_ids out = (if fp then pids else pad tk (case ml of None \<Rightarrow> model_max_length tk | Some m \<Rightarrow> m) ''position_ids'' pids)"
    "dataset_id out = did"
  using assms unfolding call_single_def Let_def
  by (auto split: sum.splits prod.splits)

text \<open>
  \<open>call_single\<close> raises exactly when the text has to be cropped and the limit leaves no
  room for a single text id: then the \<open>assert\<close> of the cropping step fails. Otherwise it
  returns.
\<close>

lemma call_single_raises_iff:
  "(\<exists>e. call_single tk ml fp L did q t a = Inl e) \<longleftrightarrow>
     (if fp then
        model_max_length tk - 1 - L < int (length q) + int (length t) + 5 \<and>
        model_max_length tk - 1 - L \<le> int (length q) + 5
      else
        max_len_single_sentence tk < int (length q) + int (length t) + int (length a) \<and>
        max_len_single_sentence tk \<le> int (length q) + int (length a))"
proof -
  have build: "\<exists>r. build_ids tk fp q t' a = Inr r" for t'
    by (cases fp) (simp_all add: build_ids_train build_ids_pred)
  have "(\<exists>e. call_single tk ml fp L did q t a = Inl e) \<longleftrightarrow>
        (\<exists>e. crop_text tk fp L q t a = Inl e)"
  proof (cases "crop_text tk fp L q t a")
    case (Inl e)
    then show ?thesis by (simp add: call_single_def Let_def)
  next
    case (Inr r)
    obtain t' ws where r: "r = (t', ws)" by (cases r)
    from build [of t'] obtain b where "build_ids tk fp q t' a = Inr b" by blast
    with Inr r show ?thesis
      by (cases b) (auto simp: call_single_def Let_def)
  qed
  also have "\<dots> \<longleftrightarrow>
     (if fp then
        model_max_length tk - 1 - L < int (length q) + int (length t) + 5 \<and>
        model_max_length tk - 1 - L \<le> int (length q) + 5
      else
        max_len_single_sentence tk < int (length q) + int (length t) + int (length a) \<and>
        max_len_single_sentence tk \<le> int (length q) + int (length a))"
    by (auto simp: crop_text_def Let_def)
  finally show ?thesis .
qed

subsection \<open>Padding\<close>

lemma pad_fits:
  "int (length xs) \<le> m \<Longrightarrow>
     pad tk m name xs = xs @ replicate (nat (m - int (length xs)))
        (if name = ''attention_mask'' \<or> name = ''position_ids'' then 0 else pad_token_id tk)"
  by (simp add: pad_def Let_def)

lemma length_pad_same:
  "length xs = length ys \<Longrightarrow> length (pad tk m n1 xs) = length (pad tk m n2 ys)"
  by (simp add: pad_def Let_def py_take_def)

lemma build_ids_lengths:
  assumes "build_ids tk fp q t a = Inr (ids, msks, tids, pids)"
  shows "length msks = length ids \<and> length tids = length ids \<and> length pids = length ids"
  using assms by (cases fp) (auto simp: build_ids_train build_ids_pred)

lemma build_ids_train_length:
  assumes "build_ids tk False q t a = Inr (ids, msks, tids, pids)"
  shows "length ids = length q + length t + length a + 6"
  using assms by (auto simp: build_ids_train)

subsection \<open>Layout of the sequences\<close>

text \<open>
  Claim C2. Whenever \<open>call_single\<close> returns, \<open>input_ids\<close> is built as the begin-of-question
  id, the question ids, an end-of-sequence id, the begin-of-text id, a prefix of the text
  ids, an end-of-sequence id and the begin-of-answer id, followed in training mode by the
  answer ids and a last end-of-sequence id and by nothing in prediction mode. The position
  ids count from 0 through the context, the begin-of-answer id included, and continue with
  \<open>model_max_length\<close>, \<open>model_max_length + 1\<close>, ... over the answer part, each of which
  lies in the second half \<open>[model_max_length, 2 * model_max_length)\<close>. In training mode
  both sequences then go through \<open>pad\<close>.
\<close>

theorem input_ids_and_position_ids_layout:
  assumes "call_single tk ml fp L did q t a = Inr (out, ws)"
  shows "\<exists>k ids pids_answ. k \<le> length t \<and>
      ids = boq_token_id tk # q @ [eos_token_id tk, bot_token_id tk] @ take k t
              @ [eos_token_id tk, boa_token_id tk]
              @ (if fp then [] else a @ [eos_token_id tk]) \<and>
      pids_answ = map (\<lambda>i. int i + model_max_length tk) [0..<(if fp then 0 else length a + 1)] \<and>
      input_ids out =
        (if fp then ids
         else pad tk (case ml of None \<Rightarrow> model_max_length tk | Some m \<Rightarrow> m) ''input_ids'' ids) \<and>
      position_ids out =
        (if fp then map int [0..<length q + k + 5] @ pids_answ
         else pad tk (case ml of None \<Rightarrow> model_max_length tk | Some m \<Rightarrow> m) ''position_ids''
                (map int [0..<length q + k + 5] @ pids_answ)) \<and>
      list_all (\<lambda>p. model_max_length tk \<le> p \<and> p < 2 * model_max_length tk) pids_answ"
proof -
  from assms obtain t' ids msks tids pids where
    crop: "crop_text tk fp L q t a = Inr (t', ws)" and
    build: "build_ids tk fp q t' a = Inr (ids, msks, tids, pids)" and
    ii: "input_ids out = (if fp then ids else pad tk (case ml of None \<Rightarrow> model_max_length tk | Some m \<Rightarrow> m) ''input_ids'' ids)" and
    pp: "position_ids out = (if fp then pids else pad tk (case ml of None \<Rightarrow> model_max_length tk | Some m \<Rightarrow> m) ''position_ids'' pids)"
    by (rule call_single_Inr)
  show ?thesis
  proof (cases fp)
    case True
    from crop True have "crop_text tk True L q t a = Inr (t', ws)" by simp
    from crop_text_pred [OF this]
    obtain k where k: "k \<le> length t" "t' = take k t"
      by (metis less_imp_le_nat order_refl take_all)
    from k have len: "length t' = k" by simp
    from build True k(2) len ii pp k(1) show ?thesis
      by - (rule exI [of _ k], auto simp: build_ids_pred)
  next
    case False
    from crop False have "crop_text tk False L q t a = Inr (t', ws)" by simp
    from crop_text_train [OF this]
    obtain k where k: "k \<le> length t" "t' = take k t"
      and fit: "int (length q) + int k + int (length a) \<le> model_max_length tk - 6"
      by (metis less_imp_le_nat order_refl take_all)
    from k have len: "length t' = k" by simp
    have rng: "list_all (\<lambda>p. model_max_length tk \<le> p \<and> p < 2 * model_max_length tk)
                 (map (\<lambda>i. int i + model_max_length tk) [0..<length a + 1])"
      using fit by (auto simp: list_all_iff)
    from build False k(2) len ii pp k(1) rng show ?thesis
      by - (rule exI [of _ k], auto simp: build_ids_train simp del: upt_Suc)
  qed
qed

theorem input_ids_and_position_ids_layout_witness:
  "call_single tk0 None False 2 7 [1, 2] [3, 4, 5, 6, 7, 8, 9, 10] [13] =
     Inr (enc_train, [CroppedForTraining 8 7]) \<and>
   (\<exists>k ids pids_answ. k \<le> length [3, 4, 5, 6, 7, 8, 9, 10 :: int] \<and>
      ids = boq_token_id tk0 # [1, 2] @ [eos_token_id tk0, bot_token_id tk0]
              @ take k [3, 4, 5, 6, 7, 8, 9, 10]
              @ [eos_token_id tk0, boa_token_id tk0] @ [13] @ [eos_token_id tk0] \<and>
      pids_answ = map (\<lambda>i. int i + model_max_length tk0) [0..<length [13 :: int] + 1] \<and>
      input_ids enc_train = pad tk0 (model_max_length tk0) ''input_ids'' ids \<and>
      position_ids enc_train =
        pad tk0 (model_max_length tk0) ''position_ids''
          (map int [0..<length [1, 2 :: int] + k + 5] @ pids_answ) \<and>
      list_all (\<lambda>p. model_max_length tk0 \<le> p \<and> p < 2 * model_max_length tk0) pids_answ)"
proof -
  have train: "call_single tk0 None False 2 7 [1, 2] [3, 4, 5, 6, 7, 8, 9, 10] [13] =
     Inr (enc_train, [CroppedForTraining 8 7])"
    by code_simp
  from input_ids_and_position_ids_layout [OF train]
  have "\<exists>k ids pids_answ. k \<le> length [3, 4, 5, 6, 7, 8, 9, 10 :: int] \<and>
      ids = boq_token_id tk0 # [1, 2] @ [eos_token_id tk0, bot_token_id tk0]
              @ take k [3, 4, 5, 6, 7, 8, 9, 10]
              @ [eos_token_id tk0, boa_token_id tk0] @ [13] @ [eos_token_id tk0] \<and>
      pids_answ = map (\<lambda>i. int i + model_max_length tk0) [0..<length [13 :: int] + 1] \<and>
      input_ids enc_train = pad tk0 (model_max_length tk0) ''input_ids'' ids \<and>
      position_ids enc_train =
        pad tk0 (model_max_length tk0) ''position_ids''
          (map int [0..<length [1, 2 :: int] + k + 5] @ pids_answ) \<and>
      list_all (\<lambda>p. model_max_length tk0 \<le> p \<and> p < 2 * model_max_length tk0) pids_answ"
    by (simp only: if_False option.case)
  with train show ?thesis by (rule conjI)
qed

subsection \<open>Lengths and padding\<close>

text \<open>
  Claim C8. Whenever \<open>call_single\<close> returns, the four sequences have the same length. In
  training mode with \<open>max_length\<close> left at its default, each is the built sequence
  followed by padding up to exactly \<open>model_max_length\<close> elements: the pad token id for
  \<open>input_ids\<close> and \<open>token_type_ids\<close>, 0 for \<open>attention_mask\<close> and \<open>position_ids\<close>. In
  prediction mode the four sequences are the built ones, without padding.
\<close>

theorem encoding_lengths_and_padding:
  assumes "call_single tk ml fp L did q t a = Inr (out, ws)"
  shows "length (attention_mask out) = length (input_ids out) \<and>
         length (token_type_ids out) = length (input_ids out) \<and>
         length (position_ids out) = length (input_ids out) \<and>
         (\<exists>t' ids msks tids pids.
            crop_text tk fp L q t a = Inr (t', ws) \<and>
            build_ids tk fp q t' a = Inr (ids, msks, tids, pids) \<and>
            (\<not> fp \<and> ml = None \<longrightarrow>
               int (length (input_ids out)) = model_max_length tk \<and>
               (\<exists>n. input_ids out = ids @ replicate n (pad_token_id tk) \<and>
                    attention_mask out = msks @ replicate n 0 \<and>
                    token_type_ids out = tids @ replicate n (pad_token_id tk) \<and>
                    position_ids out = pids @ replicate n 0)) \<and>
            (fp \<longrightarrow> input_ids out = ids \<and> attention_mask out = msks \<and>
                    token_type_ids out = tids \<and> position_ids out = pids))"
proof -
  let ?m = "case ml of None \<Rightarrow> model_max_length tk | Some m \<Rightarrow> m"
  from assms obtain t' ids msks tids pids where
    crop: "crop_text tk fp L q t a = Inr (t', ws)" and
    build: "build_ids tk fp q t' a = Inr (ids, msks, tids, pids)" and
    ii: "input_ids out = (if fp then ids else pad tk ?m ''input_ids'' ids)" and
    mm: "attention_mask out = (if fp then msks else pad tk ?m ''attention_mask'' msks)" and
    tt: "token_type_ids out = (if fp then tids else pad tk ?m ''token_type_ids'' tids)" and
    pp: "position_ids out = (if fp then pids else pad tk ?m ''position_ids'' pids)"
    by (rule call_single_Inr)
  from build_ids_lengths [OF build]
  have len: "length msks = length ids" "length tids = length ids" "length pids = length ids"
    by simp_all
  have eq: "length (attention_mask out) = length (input_ids out) \<and>
         length (token_type_ids out) = length (input_ids out) \<and>
         length (position_ids out) = length (input_ids out)"
    using ii mm tt pp len
      length_pad_same [of msks ids tk ?m "''attention_mask''" "''input_ids''"]
      length_pad_same [of tids ids tk ?m "''token_type_ids''" "''input_ids''"]
      length_pad_same [of pids ids tk ?m "''position_ids''" "''input_ids''"]
    by (cases fp) simp_all
  have train: "int (length (input_ids out)) = model_max_length tk \<and>
               (\<exists>n. input_ids out = ids @ replicate n (pad_token_id tk) \<and>
                    attention_mask out = msks @ replicate n 0 \<and>
                    token_type_ids out = tids @ replicate n (pad_token_id tk) \<and>
                    position_ids out = pids @ replicate n 0)"
    if "\<not> fp" "ml = None"
  proof -
    from that crop have "crop_text tk False L q t a = Inr (t', ws)" by simp
    from crop_text_train [OF this]
    have fit: "int (length q) + int (length t') + int (length a) \<le> model_max_length tk - 6"
      by auto
    from that build have "build_ids tk False q t' a = Inr (ids, msks, tids, pids)" by simp
    from build_ids_train_length [OF this] fit
    have le: "int (length ids) \<le> model_max_length tk" by simp
    let ?n = "nat (model_max_length tk - int (length ids))"
    from that ii mm tt pp len le
    have "input_ids out = ids @ replicate ?n (pad_token_id tk) \<and>
          attention_mask out = msks @ replicate ?n 0 \<and>
          token_type_ids out = tids @ replicate ?n (pad_token_id tk) \<and>
          position_ids out = pids @ replicate ?n 0"
      by (simp add: pad_fits)
    moreover from this le have "int (length (input_ids out)) = model_max_length tk" by simp
    ultimately show ?thesis by blast
  qed
  from eq crop build train ii mm tt pp show ?thesis by auto
qed

theorem encoding_lengths_and_padding_witness:
  "call_single tk0 None False 2 7 [1, 2] [3, 4] [13] = Inr (enc_short, []) \<and>
   length (attention_mask enc_short) = length (input_ids enc_short) \<and>
   length (token_type_ids enc_short) = length (input_ids enc_short) \<and>
   length (position_ids enc_short) = length (input_ids enc_short) \<and>
   (\<exists>t' ids msks tids pids.
      crop_text tk0 False 2 [1, 2] [3, 4] [13] = Inr (t', []) \<and>
      build_ids tk0 False [1, 2] t' [13] = Inr (ids, msks, tids, pids) \<and>
      int (length (input_ids enc_short)) = model_max_length tk0 \<and>
      (\<exists>n. input_ids enc_short = ids @ replicate n (pad_token_id tk0) \<and>
           attention_mask enc_short = msks @ replicate n 0 \<and>
           token_type_ids enc_short = tids @ replicate n (pad_token_id tk0) \<and>
           position_ids enc_short = pids @ replicate n 0)) \<and>
   call_single tk0 None True 2 7 [1, 2] [3, 4, 5, 6, 7, 8, 9, 10] [13] =
     Inr (enc_pred, [CroppedForInference 8 6]) \<and>
   (\<exists>t'. crop_text tk0 True 2 [1, 2] [3, 4, 5, 6, 7, 8, 9, 10] [13] =
           Inr (t', [CroppedForInference 8 6]) \<and>
         build_ids tk0 True [1, 2] t' [13] =
           Inr (input_ids enc_pred, attention_mask enc_pred, token_type_ids enc_pred,
                position_ids enc_pred))"
proof -
  have short: "call_single tk0 None False 2 7 [1, 2] [3, 4] [13] = Inr (enc_short, [])"
    by code_simp
  have pred: "call_single tk0 None True 2 7 [1, 2] [3, 4, 5, 6, 7, 8, 9, 10] [13] =
     Inr (enc_pred, [CroppedForInference 8 6])"
    by code_simp
  from encoding_lengths_and_padding [OF short]
  have a: "length (attention_mask enc_short) = length (input_ids enc_short) \<and>
   length (token_type_ids enc_short) = length (input_ids enc_short) \<and>
   length (position_ids enc_short) = length (input_ids enc_short) \<and>
   (\<exists>t' ids msks tids pids.
      crop_text tk0 False 2 [1, 2] [3, 4] [13] = Inr (t', []) \<and>
      build_ids tk0 False [1, 2] t' [13] = Inr (ids, msks, tids, pids) \<and>
      int (length (input_ids enc_short)) = model_max_length tk0 \<and>
      (\<exists>n. input_ids enc_short = ids @ replicate n (pad_token_id tk0) \<and>
           attention_mask enc_short = msks @ replicate n 0 \<and>
           token_type_ids enc_short = tids @ replicate n (pad_token_id tk0) \<and>
           position_ids enc_short = pids @ replicate n 0))"
    by blast
  from encoding_lengths_and_padding [OF pred]
  have b: "\<exists>t'. crop_text tk0 True 2 [1, 2] [3, 4, 5, 6, 7, 8, 9, 10] [13] =
           Inr (t', [CroppedForInference 8 6]) \<and>
         build_ids tk0 True [1, 2] t' [13] =
           Inr (input_ids enc_pred, attention_mask enc_pred, token_type_ids enc_pred,
                position_ids enc_pred)"
    by blast
  from short a pred b show ?thesis by blast
qed

subsection \<open>What cropping keeps\<close>

lemma pad_cases:
  "pad tk m ''input_ids'' xs =
     (if int (length xs) \<le> m then xs @ replicate (nat (m - int (length xs))) (pad_token_id tk)
      else py_take m xs)"
  by (simp add: pad_def Let_def)

text \<open>
  Claim C1, as the code has it. Whenever \<open>call_single\<close> returns, the cropping step has
  kept a prefix of the text ids, the whole text exactly when the sample is within the
  limit of its mode, and the question ids and the answer ids as they are. In prediction
  mode \<open>input_ids\<close> holds the whole question and that prefix and stops at the
  begin-of-answer id (the answer ids are not part of it), and its length plus the
  dataset's longest label plus one end-of-sequence id fits in \<open>model_max_length\<close>. In
  training mode the sequence built from the whole question, that prefix and the whole
  answer has at most \<open>model_max_length\<close> ids, and \<open>input_ids\<close> is that sequence followed
  by padding up to \<open>max_length\<close> when it has at most \<open>max_length\<close> ids (as it always has
  when \<open>max_length\<close> is at least \<open>model_max_length\<close>, the default) and its slice
  \<open>[:max_length]\<close> otherwise.
\<close>

theorem question_and_answer_ids_kept:
  assumes "call_single tk ml fp L did q t a = Inr (out, ws)"
  shows "\<exists>k\<le>length t.
     (if fp then
        (k = length t \<longleftrightarrow>
           int (length q) + int (length t) + 5 \<le> model_max_length tk - 1 - L) \<and>
        input_ids out = boq_token_id tk # q @ [eos_token_id tk, bot_token_id tk] @ take k t
                          @ [eos_token_id tk, boa_token_id tk] \<and>
        int (length (input_ids out)) + L + 1 \<le> model_max_length tk
      else
        (let built = boq_token_id tk # q @ [eos_token_id tk, bot_token_id tk] @ take k t
                       @ [eos_token_id tk, boa_token_id tk] @ a @ [eos_token_id tk];
             max_length = (case ml of None \<Rightarrow> model_max_length tk | Some m \<Rightarrow> m)
         in (k = length t \<longleftrightarrow>
               int (length q) + int (length t) + int (length a) \<le> max_len_single_sentence tk) \<and>
            int (length built) \<le> model_max_length tk \<and>
            input_ids out =
              (if int (length built) \<le> max_length
               then built @ replicate (nat (max_length - int (length built))) (pad_token_id tk)
               else py_take max_length built)))"
proof -
  let ?m = "case ml of None \<Rightarrow> model_max_length tk | Some m \<Rightarrow> m"
  from assms obtain t' ids msks tids pids where
    crop: "crop_text tk fp L q t a = Inr (t', ws)" and
    build: "build_ids tk fp q t' a = Inr (ids, msks, tids, pids)" and
    ii: "input_ids out = (if fp then ids else pad tk ?m ''input_ids'' ids)"
    by (rule call_single_Inr)
  show ?thesis
  proof (cases fp)
    case True
    from crop True have "crop_text tk True L q t a = Inr (t', ws)" by simp
    from crop_text_pred [OF this]
    obtain k where k: "k \<le> length t" "t' = take k t"
      and fit: "int (length q) + int k + 5 \<le> model_max_length tk - 1 - L"
      and full: "k = length t \<longleftrightarrow>
           int (length q) + int (length t) + 5 \<le> model_max_length tk - 1 - L"
    proof (elim disjE exE conjE)
      assume "t' = t" "int (length q) + int (length t) + 5 \<le> model_max_length tk - 1 - L"
      then show ?thesis using that [of "length t"] by simp
    next
      fix k assume "k < length t" "t' = take k t"
        "int (length q) + int k + 5 = model_max_length tk - 1 - L"
      then show ?thesis using that [of k] by simp
    qed
    from k have len: "length t' = k" by simp
    from build True k(2) have ids: "ids = boq_token_id tk # q @ [eos_token_id tk, bot_token_id tk]
                          @ take k t @ [eos_token_id tk, boa_token_id tk]"
      by (simp add: build_ids_pred)
    with len k(2) have "int (length ids) = int (length q) + int k + 5" by simp
    with fit have "int (length ids) + L + 1 \<le> model_max_length tk" by simp
    with ids True ii k(1) full show ?thesis
      by - (rule exI [of _ k], simp)
  next
    case False
    from crop False have "crop_text tk False L q t a = Inr (t', ws)" by simp
    from crop_text_train [OF this]
    obtain k where k: "k \<le> length t" "t' = take k t"
      and fit: "int (length q) + int k + int (length a) \<le> model_max_length tk - 6"
      and full: "k = length t \<longleftrightarrow>
           int (length q) + int (length t) + int (length a) \<le> max_len_single_sentence tk"
    proof (elim disjE exE conjE)
      assume "t' = t" "int (length q) + int (length t) + int (length a) \<le> model_max_length tk - 6"
      then show ?thesis using that [of "length t"] by (simp add: max_len_single_sentence_def)
    next
      fix k assume "k < length t" "t' = take k t"
        "int (length q) + int k + int (length a) = model_max_length tk - 6"
      then show ?thesis using that [of k] by (simp add: max_len_single_sentence_def)
    qed
    from k have len: "length t' = k" by simp
    let ?built = "boq_token_id tk # q @ [eos_token_id tk, bot_token_id tk] @ take k t
                          @ [eos_token_id tk, boa_token_id tk] @ a @ [eos_token_id tk]"
    from build False k(2) have ids: "ids = ?built"
      by (simp add: build_ids_train)
    from len k(2) fit have le: "int (length ?built) \<le> model_max_length tk" by simp
    from ii False ids have "input_ids out =
              (if int (length ?built) \<le> ?m
               then ?built @ replicate (nat (?m - int (length ?built))) (pad_token_id tk)
               else py_take ?m ?built)"
      by (simp only: pad_cases if_False)
    with le full False k(1) show ?thesis
      by - (rule exI [of _ k], simp only: Let_def if_False simp_thms)
  qed
qed

theorem question_and_answer_ids_kept_witness:
  "call_single tk0 None False 2 7 [1, 2] [3, 4, 5, 6, 7, 8, 9, 10] [13] =
     Inr (enc_train, [CroppedForTraining 8 7]) \<and>
   (\<exists>k\<le>length [3, 4, 5, 6, 7, 8, 9, 10 :: int].
      (k = length [3, 4, 5, 6, 7, 8, 9, 10 :: int] \<longleftrightarrow>
         int (length [1, 2 :: int]) + int (length [3, 4, 5, 6, 7, 8, 9, 10 :: int])
           + int (length [13 :: int]) \<le> max_len_single_sentence tk0) \<and>
      int (length (boq_token_id tk0 # [1, 2] @ [eos_token_id tk0, bot_token_id tk0]
             @ take k [3, 4, 5, 6, 7, 8, 9, 10]
             @ [eos_token_id tk0, boa_token_id tk0] @ [13] @ [eos_token_id tk0]))
        \<le> model_max_length tk0 \<and>
      input_ids enc_train =
        (if int (length (boq_token_id tk0 # [1, 2] @ [eos_token_id tk0, bot_token_id tk0]
                   @ take k [3, 4, 5, 6, 7, 8, 9, 10]
                   @ [eos_token_id tk0, boa_token_id tk0] @ [13] @ [eos_token_id tk0]))
              \<le> model_max_length tk0
         then (boq_token_id tk0 # [1, 2] @ [eos_token_id tk0, bot_token_id tk0]
                 @ take k [3, 4, 5, 6, 7, 8, 9, 10]
                 @ [eos_token_id tk0, boa_token_id tk0] @ [13] @ [eos_token_id tk0])
              @ replicate (nat (model_max_length tk0
                  - int (length (boq_token_id tk0 # [1, 2] @ [eos_token_id tk0, bot_token_id tk0]
                      @ take k [3, 4, 5, 6, 7, 8, 9, 10]
                      @ [eos_token_id tk0, boa_token_id tk0] @ [13] @ [eos_token_id tk0]))))
                  (pad_token_id tk0)
         else py_take (model_max_length tk0)
                (boq_token_id tk0 # [1, 2] @ [eos_token_id tk0, bot_token_id tk0]
                   @ take k [3, 4, 5, 6, 7, 8, 9, 10]
                   @ [eos_token_id tk0, boa_token_id tk0] @ [13] @ [eos_token_id tk0]))) \<and>
   call_single tk0 (Some 8) False 2 7 [1, 2] [3, 4, 5, 6, 7, 8, 9, 10] [13] =
     Inr (enc_cut, [CroppedForTraining 8 7]) \<and>
   (\<exists>k\<le>length [3, 4, 5, 6, 7, 8, 9, 10 :: int].
      (k = length [3, 4, 5, 6, 7, 8, 9, 10 :: int] \<longleftrightarrow>
         int (length [1, 2 :: int]) + int (length [3, 4, 5, 6, 7, 8, 9, 10 :: int])
           + int (length [13 :: int]) \<le> max_len_single_sentence tk0) \<and>
      int (length (boq_token_id tk0 # [1, 2] @ [eos_token_id tk0, bot_token_id tk0]
             @ take k [3, 4, 5, 6, 7, 8, 9, 10]
             @ [eos_token_id tk0, boa_token_id tk0] @ [13] @ [eos_token_id tk0]))
        \<le> model_max_length tk0 \<and>
      input_ids enc_cut =
        (if int (length (boq_token_id tk0 # [1, 2] @ [eos_token_id tk0, bot_token_id tk0]
                   @ take k [3, 4, 5, 6, 7, 8, 9, 10]
                   @ [eos_token_id tk0, boa_token_id tk0] @ [13] @ [eos_token_id tk0])) \<le> 8
         then (boq_token_id tk0 # [1, 2] @ [eos_token_id tk0, bot_token_id tk0]
                 @ take k [3, 4, 5, 6, 7, 8, 9, 10]
                 @ [eos_token_id tk0, boa_token_id tk0] @ [13] @ [eos_token_id tk0])
              @ replicate (nat (8
                  - int (length (boq_token_id tk0 # [1, 2] @ [eos_token_id tk0, bot_token_id tk0]
                      @ take k [3, 4, 5, 6, 7, 8, 9, 10]
                      @ [eos_token_id tk0, boa_token_id tk0] @ [13] @ [eos_token_id tk0]))))
                  (pad_token_id tk0)
         else py_take 8
                (boq_token_id tk0 # [1, 2] @ [eos_token_id tk0, bot_token_id tk0]
                   @ take k [3, 4, 5, 6, 7, 8, 9, 10]
                   @ [eos_token_id tk0, boa_token_id tk0] @ [13] @ [eos_token_id tk0]))) \<and>
   call_single tk0 None True 2 7 [1, 2] [3, 4, 5, 6, 7, 8, 9, 10] [13] =
     Inr (enc_pred, [CroppedForInference 8 6]) \<and>
   (\<exists>k\<le>length [3, 4, 5, 6, 7, 8, 9, 10 :: int].
      (k = length [3, 4, 5, 6, 7, 8, 9, 10 :: int] \<longleftrightarrow>
         int (length [1, 2 :: int]) + int (length [3, 4, 5, 6, 7, 8, 9, 10 :: int]) + 5
           \<le> model_max_length tk0 - 1 - 2) \<and>
      input_ids enc_pred =
        boq_token_id tk0 # [1, 2] @ [eos_token_id tk0, bot_token_id tk0]
          @ take k [3, 4, 5, 6, 7, 8, 9, 10]
          @ [eos_token_id tk0, boa_token_id tk0] \<and>
      int (length (input_ids enc_pred)) + 2 + 1 \<le> model_max_length tk0)"
  (is "?h1 \<and> ?c1 \<and> ?h2 \<and> ?c2 \<and> ?h3 \<and> ?c3")
proof -
  have train: ?h1 by code_simp
  have cut: ?h2 by code_simp
  have pred: ?h3 by code_simp
  from question_and_answer_ids_kept [OF train]
  have a: ?c1 by (simp only: if_False option.case Let_def)
  from question_and_answer_ids_kept [OF cut]
  have b: ?c2 by (simp only: if_False option.case Let_def)
  from question_and_answer_ids_kept [OF pred]
  have c: ?c3 by (simp only: if_True)
  from train a cut b pred c show ?thesis by (intro conjI)
qed

text \<open>
  Claim C1 as stated fails in two places, shown on the sample of eleven ids with the
  answer id 13. In training mode with \<open>max_length = 8\<close>, \<open>pad\<close> truncates the built
  sequence of sixteen ids to its first eight, and the answer is cut off. In prediction
  mode the answer and the end-of-sequence id after it are sliced off by design.
\<close>

theorem answer_ids_cropped_counterexample:
  "call_single tk0 (Some 8) False 2 7 [1, 2] [3, 4, 5, 6, 7, 8, 9, 10] [13] =
     Inr (\<lparr> input_ids = [101, 1, 2, 100, 102, 3, 4, 5],
            attention_mask = [1, 1, 1, 1, 1, 1, 1, 1],
            token_type_ids = [104, 104, 104, 104, 105, 105, 105, 105],
            position_ids = [0, 1, 2, 3, 4, 5, 6, 7],
            dataset_id = 7 \<rparr>, [CroppedForTraining 8 7]) \<and>
   13 \<notin> set [101, 1, 2, 100, 102, 3, 4, 5 :: int] \<and>
   call_single tk0 None True 2 7 [1, 2] [3, 4, 5, 6, 7, 8, 9, 10] [13] =
     Inr (enc_pred, [CroppedForInference 8 6]) \<and>
   13 \<notin> set (input_ids enc_pred)"
  by code_simp

section \<open>Properties of the batching\<close>

subsection \<open>Splitting one group\<close>

lemma py_slice_nonneg:
  "0 \<le> st \<Longrightarrow> 0 \<le> en \<Longrightarrow> py_slice st en xs = drop (nat st) (take (nat en) xs)"
  by (simp add: py_slice_def py_bound_def min_def)

lemma split_from_chunks:
  assumes "0 < b" "st + k * b < length xs" "length xs \<le> st + Suc k * b"
  shows "concat (split_from (int st) (map (\<lambda>j. int st + int b + int j * int b) [0..<k]) xs) = drop st xs
       \<and> list_all (\<lambda>c. c \<noteq> [] \<and> length c \<le> b) (split_from (int st) (map (\<lambda>j. int st + int b + int j * int b) [0..<k]) xs)"
  using assms
proof (induction k arbitrary: st)
  case 0
  then show ?case by (simp add: py_slice_nonneg)
next
  case (Suc k)
  have dec: "map (\<lambda>j. int st + int b + int j * int b) [0..<Suc k]
           = (int st + int b) # map (\<lambda>j. int (st + b) + int b + int j * int b) [0..<k]"
    by (simp add: upt_conv_Cons map_Suc_upt [symmetric] algebra_simps del: upt_Suc)
  from Suc.prems have lt: "st + b < length xs"
    by (simp add: algebra_simps)
  have ih: "concat (split_from (int (st + b)) (map (\<lambda>j. int (st + b) + int b + int j * int b) [0..<k]) xs)
              = drop (st + b) xs
       \<and> list_all (\<lambda>c. c \<noteq> [] \<and> length c \<le> b)
           (split_from (int (st + b)) (map (\<lambda>j. int (st + b) + int b + int j * int b) [0..<k]) xs)"
  proof (rule Suc.IH)
    show "0 < b" by fact
    from Suc.prems(2) show "st + b + k * b < length xs"
      by (simp add: algebra_simps)
    from Suc.prems(3) show "length xs \<le> st + b + Suc k * b" by (simp add: algebra_simps)
  qed
  have first: "py_slice (int st) (int st + int b) xs = take b (drop st xs)"
    by (simp add: py_slice_nonneg nat_add_distrib take_drop add.commute)
  from lt have len: "length (take b (drop st xs)) = b" by simp
  have "take b (drop st xs) @ drop (st + b) xs = drop st xs"
    by (metis append_take_drop_id drop_drop add.commute)
  with ih first len Suc.prems(1) show ?case
    unfolding dec by auto
qed


lemma group_batches_pos:
  assumes "0 < b"
  shows "\<exists>bs. group_batches b idxs = Inr bs \<and> concat bs = idxs \<and>
              (\<forall>c\<in>set bs. int (length c) \<le> b)"
proof (cases "int (length idxs) > b")
  case False
  then show ?thesis by (simp add: group_batches_def)
next
  case True
  define n where "n = nat b"
  define k where "k = (length idxs - 1) div n"
  from assms have n: "0 < n" "b = int n" by (simp_all add: n_def)
  from True n have len: "n < length idxs" by simp
  have cnt: "nat ((int (length idxs) - b + b - 1) div b) = k"
  proof -
    from len have "int (length idxs) - b + b - 1 = int (length idxs - 1)" by linarith
    then have "(int (length idxs) - b + b - 1) div b = int (length idxs - 1) div int n"
      by (simp only: n(2))
    also have "\<dots> = int ((length idxs - 1) div n)" by (simp only: zdiv_int)
    finally show ?thesis by (simp only: k_def nat_int)
  qed
  have "k * n \<le> length idxs - 1" unfolding k_def by (rule div_times_less_eq_dividend)
  with len have lo: "0 + k * n < length idxs" by linarith
  from dividend_less_div_times [OF n(1), of "length idxs - 1"]
  have "length idxs - 1 < n + k * n" by (simp only: k_def)
  then have hi: "length idxs \<le> 0 + Suc k * n" by simp
  have fn: "(\<lambda>j. b + int j * b) = (\<lambda>j. int 0 + int n + int j * int n)"
    by (rule ext) (simp only: n(2) of_nat_0 add_0)
  from assms have "py_range3 b (int (length idxs)) b
      = Inr (map (\<lambda>j. b + int j * b) [0..<nat ((int (length idxs) - b + b - 1) div b)])"
    by (simp add: py_range3_def)
  then have rng: "py_range3 b (int (length idxs)) b
               = Inr (map (\<lambda>j. int 0 + int n + int j * int n) [0..<k])"
    by (simp only: cnt fn)
  from split_from_chunks [OF n(1) lo hi]
  have "concat (np_split idxs (map (\<lambda>j. int 0 + int n + int j * int n) [0..<k])) = idxs"
    and "\<forall>c\<in>set (np_split idxs (map (\<lambda>j. int 0 + int n + int j * int n) [0..<k])). length c \<le> n"
    by (simp_all add: np_split_def list_all_iff)
  with True rng n(2) show ?thesis
    by (simp add: group_batches_def del: of_nat_mult of_nat_add of_nat_0)
qed

lemma sum_lists_all_Inr:
  assumes "\<forall>g\<in>set gs. \<exists>bs. f g = Inr bs \<and> concat bs = g \<and> (\<forall>c\<in>set bs. int (length c) \<le> b)"
  shows "\<exists>res. sum_lists acc (map f gs) = Inr (acc @ res) \<and> concat res = concat gs \<and>
           (\<forall>c\<in>set res. int (length c) \<le> b \<and> (\<exists>g\<in>set gs. set c \<subseteq> set g))"
  using assms
proof (induction gs arbitrary: acc)
  case Nil
  then show ?case by simp
next
  case (Cons g gs)
  from Cons.prems obtain bs where bs: "f g = Inr bs" "concat bs = g"
    "\<forall>c\<in>set bs. int (length c) \<le> b" by auto
  from Cons.prems have "\<forall>g\<in>set gs. \<exists>bs. f g = Inr bs \<and> concat bs = g \<and>
      (\<forall>c\<in>set bs. int (length c) \<le> b)" by simp
  from Cons.IH [OF this, of "acc @ bs"] obtain res where
    res: "sum_lists (acc @ bs) (map f gs) = Inr ((acc @ bs) @ res)" "concat res = concat gs"
      "\<forall>c\<in>set res. int (length c) \<le> b \<and> (\<exists>g\<in>set gs. set c \<subseteq> set g)"
    by blast
  from bs(2) have sub: "\<forall>c\<in>set bs. set c \<subseteq> set g" by auto
  have "sum_lists acc (map f (g # gs)) = Inr (acc @ (bs @ res))"
    using bs(1) res(1) by simp
  moreover have "concat (bs @ res) = concat (g # gs)" using bs(2) res(2) by simp
  moreover have "\<forall>c\<in>set (bs @ res). int (length c) \<le> b \<and> (\<exists>g'\<in>set (g # gs). set c \<subseteq> set g')"
    using bs(3) sub res(3) by auto
  ultimately show ?case by blast
qed

lemma distinct_concat_groups:
  assumes "distinct us" "distinct xs"
  shows "distinct (concat (map (\<lambda>u. filter (\<lambda>i. h i = u) xs) us))"
  using assms(1)
proof (induction us)
  case Nil
  then show ?case by simp
next
  case (Cons u us)
  then have "u \<notin> set us" "distinct us" by simp_all
  with Cons.IH assms(2) show ?case by auto
qed

lemma set_concat_groups:
  "set (concat (map (np_where_eq len_ids) (np_unique len_ids))) = {..<length len_ids}"
  by (auto simp: np_where_eq_def np_unique_def)

lemma distinct_concat_where:
  "distinct (concat (map (np_where_eq len_ids) (np_unique len_ids)))"
proof -
  have "np_where_eq len_ids = (\<lambda>u. filter (\<lambda>i. len_ids ! i = u) [0..<length len_ids])"
    by (rule ext) (simp add: np_where_eq_def)
  moreover have "distinct (np_unique len_ids)" by (simp add: np_unique_def)
  ultimately show ?thesis by (simp add: distinct_concat_groups)
qed

lemma distinct_concat_one_part:
  assumes "distinct (concat xss)" "k < length xss" "k' < length xss"
    "x \<in> set (xss ! k)" "x \<in> set (xss ! k')"
  shows "k = k'"
  using assms
proof (induction xss arbitrary: k k')
  case Nil
  then show ?case by simp
next
  case (Cons xs xss)
  have tail: "x \<in> set (concat xss)" if "j < length xss" "x \<in> set (xss ! j)" for j
  proof -
    from that(1) have "xss ! j \<in> set xss" by (rule nth_mem)
    with that(2) show ?thesis by auto
  qed
  from Cons.prems(1) have disj: "x \<in> set xs \<Longrightarrow> x \<notin> set (concat xss)" by auto
  show ?case
  proof (cases k)
    case 0
    show ?thesis
    proof (cases k')
      case 0
      with \<open>k = 0\<close> show ?thesis by simp
    next
      case (Suc j')
      with Cons.prems \<open>k = 0\<close> have "x \<in> set xs" "x \<in> set (concat xss)"
        using tail [of j'] by simp_all
      with disj show ?thesis by simp
    qed
  next
    case (Suc j)
    show ?thesis
    proof (cases k')
      case 0
      with Cons.prems Suc have "x \<in> set xs" "x \<in> set (concat xss)"
        using tail [of j] by simp_all
      with disj show ?thesis by simp
    next
      case (Suc j')
      from Cons.prems \<open>k = Suc j\<close> Suc have "j = j'"
        by (intro Cons.IH) simp_all
      with Suc \<open>k = Suc j\<close> show ?thesis by simp
    qed
  qed
qed

text \<open>
  What the positivity of the batch size keeps out: with a batch size of zero \<open>range\<close>
  raises \<open>ValueError\<close> for the first group, and with a negative one the range of split
  points is empty and every group stays whole.
\<close>

lemma idxs_batches_zero:
  assumes "len_ids \<noteq> []"
  shows "idxs_batches len_ids 0 = Inl ValueError"
proof -
  have "set (np_unique len_ids) = set len_ids" by (simp add: np_unique_def)
  with assms have "np_unique len_ids \<noteq> []" by (metis set_empty)
  then obtain len lens where u: "np_unique len_ids = len # lens" by (cases "np_unique len_ids") auto
  then have "len \<in> set len_ids" by (metis list.set_intros(1) np_unique_def set_remdups set_sort)
  then obtain i where "i < length len_ids" "len_ids ! i = len" by (auto simp: in_set_conv_nth)
  then have "i \<in> set (np_where_eq len_ids len)" by (simp add: np_where_eq_def)
  then have "0 < length (np_where_eq len_ids len)" by (auto simp: length_pos_if_in_set)
  then have "group_batches 0 (np_where_eq len_ids len) = Inl ValueError"
    by (simp add: group_batches_def py_range3_def)
  with u show ?thesis by (simp add: idxs_batches_def Let_def)
qed

lemma group_batches_negative:
  assumes "b < 0"
  shows "group_batches b idxs = Inr [idxs]"
proof -
  have "b - int (length idxs) - b - 1 < 0" by simp
  moreover from assms have "0 < - b" by simp
  ultimately have "(b - int (length idxs) - b - 1) div (- b) < 0"
    by (rule div_neg_pos_less0)
  then have "py_range3 b (int (length idxs)) b = Inr []"
    using assms by (simp add: py_range3_def)
  then show ?thesis
    using assms by (simp add: group_batches_def np_split_def py_slice_def py_bound_def)
qed

subsection \<open>The batches of a dataset\<close>

text \<open>
  Claim C4. For a positive batch size the batching returns, and its batches partition the
  indices of the dataset: (1) the samples of one batch have \<open>input_ids\<close> of the same
  length, (2) no batch has more than \<open>batch_size\<close> samples, (3) every index of the
  dataset is in exactly one batch, and the batches hold nothing but indices of the
  dataset.
\<close>

theorem batches_partition_the_dataset:
  assumes "0 < batch_size"
  shows "\<exists>batches. idxs_batches len_ids batch_size = Inr batches \<and>
     (\<forall>B\<in>set batches. \<forall>i\<in>set B. \<forall>j\<in>set B. len_ids ! i = len_ids ! j) \<and>
     (\<forall>B\<in>set batches. int (length B) \<le> batch_size) \<and>
     (\<forall>i<length len_ids. \<exists>!k. k < length batches \<and> i \<in> set (batches ! k)) \<and>
     (\<forall>B\<in>set batches. \<forall>i\<in>set B. i < length len_ids)"
proof -
  let ?groups = "map (np_where_eq len_ids) (np_unique len_ids)"
  have "\<forall>g\<in>set ?groups. \<exists>bs. group_batches batch_size g = Inr bs \<and> concat bs = g \<and>
          (\<forall>c\<in>set bs. int (length c) \<le> batch_size)"
    using group_batches_pos [OF assms] by blast
  from sum_lists_all_Inr [OF this, of "[]"] obtain batches where
    ret: "idxs_batches len_ids batch_size = Inr batches" and
    cc: "concat batches = concat ?groups" and
    each: "\<forall>c\<in>set batches. int (length c) \<le> batch_size \<and> (\<exists>g\<in>set ?groups. set c \<subseteq> set g)"
    by (auto simp: idxs_batches_def Let_def)
  have same: "len_ids ! i = len_ids ! j" if "B \<in> set batches" "i \<in> set B" "j \<in> set B" for B i j
  proof -
    from each that(1) obtain len where "set B \<subseteq> set (np_where_eq len_ids len)" by auto
    with that(2,3) show ?thesis by (auto simp: np_where_eq_def)
  qed
  have dist: "distinct (concat batches)" using cc distinct_concat_where by simp
  have cover: "set (concat batches) = {..<length len_ids}" using cc set_concat_groups by simp
  have inb: "i < length len_ids" if "B \<in> set batches" "i \<in> set B" for B i
    using cover that by auto
  have one: "\<exists>!k. k < length batches \<and> i \<in> set (batches ! k)" if "i < length len_ids" for i
  proof -
    from that cover have "i \<in> set (concat batches)" by simp
    then obtain B where "B \<in> set batches" "i \<in> set B" by auto
    then obtain k where "k < length batches" "i \<in> set (batches ! k)"
      by (auto simp: in_set_conv_nth)
    then show ?thesis using distinct_concat_one_part [OF dist] by blast
  qed
  show ?thesis
  proof (intro exI conjI)
    show "idxs_batches len_ids batch_size = Inr batches" by fact
    show "\<forall>B\<in>set batches. \<forall>i\<in>set B. \<forall>j\<in>set B. len_ids ! i = len_ids ! j"
      using same by blast
    show "\<forall>B\<in>set batches. int (length B) \<le> batch_size" using each by blast
    show "\<forall>i<length len_ids. \<exists>!k. k < length batches \<and> i \<in> set (batches ! k)"
      using one by blast
    show "\<forall>B\<in>set batches. \<forall>i\<in>set B. i < length len_ids" using inb by blast
  qed
qed

theorem batches_partition_the_dataset_witness:
  "(0 :: int) < 2 \<and>
   idxs_batches [5, 3, 5, 5, 3, 7, 5, 5] 2 = Inr [[1, 4], [0, 2], [3, 6], [7], [5]] \<and>
   (\<exists>batches. idxs_batches [5, 3, 5, 5, 3, 7, 5, 5] 2 = Inr batches \<and>
     (\<forall>B\<in>set batches. \<forall>i\<in>set B. \<forall>j\<in>set B.
        [5, 3, 5, 5, 3, 7, 5, 5 :: nat] ! i = [5, 3, 5, 5, 3, 7, 5, 5] ! j) \<and>
     (\<forall>B\<in>set batches. int (length B) \<le> 2) \<and>
     (\<forall>i<length [5, 3, 5, 5, 3, 7, 5, 5 :: nat]. \<exists>!k. k < length batches \<and> i \<in> set (batches ! k)) \<and>
     (\<forall>B\<in>set batches. \<forall>i\<in>set B. i < length [5, 3, 5, 5, 3, 7, 5, 5 :: nat]))"
proof -
  have pos: "(0 :: int) < 2" by simp
  have run: "idxs_batches [5, 3, 5, 5, 3, 7, 5, 5] 2 = Inr [[1, 4], [0, 2], [3, 6], [7], [5]]"
    by code_simp
  from pos run batches_partition_the_dataset [OF pos, of "[5, 3, 5, 5, 3, 7, 5, 5]"]
  show ?thesis by (intro conjI)
qed

section \<open>Properties of the warnings and of the parsed label\<close>

subsection \<open>The label dictionary\<close>

lemma lb2id_sentinel:
  "lb2id lower labels x = - 1 \<longleftrightarrow> x \<notin> set (map lower labels)"
proof -
  let ?kv = "rev (zip (map lower labels) (py_range (int (length labels))))"
  have dom: "fst ` set ?kv = set (map lower labels)"
    by (simp add: py_range_def map_fst_zip [symmetric] del: map_fst_zip set_map)
       (metis length_map map_fst_zip set_map length_upt diff_zero)
  have nonneg: "0 \<le> i" if "map_of ?kv x = Some i" for i
  proof -
    from that have "(x, i) \<in> set ?kv" by (rule map_of_SomeD)
    then have "i \<in> set (py_range (int (length labels)))" by (auto dest: set_zip_rightD)
    then show ?thesis by (auto simp: py_range_def)
  qed
  show ?thesis
  proof (cases "map_of ?kv x")
    case None
    then have "x \<notin> fst ` set ?kv" by (simp add: map_of_eq_None_iff)
    with None dom show ?thesis by (simp add: lb2id_def)
  next
    case (Some i)
    then have "x \<in> fst ` set ?kv" by (metis map_of_eq_None_iff option.distinct(1))
    with Some dom nonneg [OF Some] show ?thesis by (simp add: lb2id_def)
  qed
qed

lemma lb2id_index:
  assumes "lb2id lower labels x \<noteq> - 1"
  shows "0 \<le> lb2id lower labels x \<and> nat (lb2id lower labels x) < length labels \<and>
         lower (labels ! nat (lb2id lower labels x)) = x"
proof -
  let ?kv = "rev (zip (map lower labels) (py_range (int (length labels))))"
  from assms obtain i where some: "map_of ?kv x = Some i" and i: "lb2id lower labels x = i"
    by (auto simp: lb2id_def split: option.splits)
  from some have "(x, i) \<in> set (zip (map lower labels) (map int [0..<length labels]))"
    by (auto dest: map_of_SomeD simp: py_range_def)
  then obtain j where "j < length labels" "map lower labels ! j = x" "map int [0..<length labels] ! j = i"
    by (auto simp: in_set_zip)
  then have "i = int j" "lower (labels ! j) = x" "j < length labels" by simp_all
  with i show ?thesis by simp
qed

subsection \<open>The warnings\<close>

lemma set_pred_n_true_warnings:
  "fst (set_pred_n_true get_substr_indices lower boa eos labels d_log lbs arrays generated i) =
     (let idxs_boa = get_substr_indices generated boa
      in if idxs_boa = [] then []
         else if 1 < length idxs_boa then
           (case d_log of None \<Rightarrow> [GeneratedSeveralBoa (length idxs_boa)]
            | Some d \<Rightarrow> [GeneratedSeveralBoa (length idxs_boa), FileWarning d])
         else if get_substr_indices (drop (hd idxs_boa + length boa) generated) eos = []
           then [AnswerNotFinished]
         else [])"
  by (simp add: set_pred_n_true_def Let_def split: option.splits)

lemma crop_text_prefix:
  assumes "crop_text tk fp L q t a = Inr (t', ws)"
  obtains k where "k \<le> length t" "t' = take k t" "ws = [] \<longleftrightarrow> k = length t"
proof (cases fp)
  case True
  with assms have "crop_text tk True L q t a = Inr (t', ws)" by simp
  from crop_text_pred [OF this] show ?thesis
  proof (elim disjE exE conjE)
    assume "t' = t" "ws = []"
    then show ?thesis using that [of "length t"] by simp
  next
    fix k assume "k < length t" "t' = take k t"
      "ws = [CroppedForInference (int (length t)) (int k)]"
    then show ?thesis using that [of k] by simp
  qed
next
  case False
  with assms have "crop_text tk False L q t a = Inr (t', ws)" by simp
  from crop_text_train [OF this] show ?thesis
  proof (elim disjE exE conjE)
    assume "t' = t" "ws = []"
    then show ?thesis using that [of "length t"] by simp
  next
    fix k assume "k < length t" "t' = take k t"
      "ws = [CroppedForTraining (int (length t)) (int k)]"
    then show ?thesis using that [of k] by simp
  qed
qed

lemma build_ids_prefix:
  assumes "build_ids tk fp q t a = Inr (ids, msks, tids, pids)"
  shows "\<exists>rest. ids = boq_token_id tk # q @ [eos_token_id tk, bot_token_id tk] @ t
                   @ [eos_token_id tk, boa_token_id tk] @ rest"
  using assms by (cases fp) (auto simp: build_ids_train build_ids_pred)

text \<open>
  Claim C6, as the code has it. Whenever \<open>call_single\<close> returns, it has emitted a warning
  exactly when its cropping step shortened the text, in training and in prediction mode
  alike; in prediction mode, and in training mode with \<open>max_length\<close> at least
  \<open>model_max_length\<close>, the text of the output is that cropped text, so there the output
  carries the whole text exactly when there was no warning. \<open>set_pred_n_true\<close> emits a
  warning exactly when the generation holds several begin-of-answer tokens, or holds one
  and no end-of-sequence token after it.
\<close>

theorem warnings_for_cropping_and_malformed_generations:
  "(call_single tk ml fp L did q t a = Inr (out, ws) \<longrightarrow>
      (\<exists>k\<le>length t.
          crop_text tk fp L q t a = Inr (take k t, ws) \<and>
          (ws = [] \<longleftrightarrow> k = length t) \<and>
          (fp \<or> model_max_length tk \<le> (case ml of None \<Rightarrow> model_max_length tk | Some m \<Rightarrow> m) \<longrightarrow>
             (\<exists>rest. input_ids out =
                boq_token_id tk # q @ [eos_token_id tk, bot_token_id tk] @ take k t
                  @ [eos_token_id tk, boa_token_id tk] @ rest)))) \<and>
   (fst (set_pred_n_true get_substr_indices lower boa_token eos_token labels d_log lbs_true arrays generated i_sample)
       \<noteq> [] \<longleftrightarrow>
      (let idxs_boa = get_substr_indices generated boa_token
       in 1 < length idxs_boa \<or>
          (length idxs_boa = 1 \<and>
           get_substr_indices (drop (hd idxs_boa + length boa_token) generated) eos_token = [])))"
proof (intro conjI impI)
  let ?m = "case ml of None \<Rightarrow> model_max_length tk | Some m \<Rightarrow> m"
  assume ret: "call_single tk ml fp L did q t a = Inr (out, ws)"
  then obtain t' ids msks tids pids where
    crop: "crop_text tk fp L q t a = Inr (t', ws)" and
    build: "build_ids tk fp q t' a = Inr (ids, msks, tids, pids)" and
    ii: "input_ids out = (if fp then ids else pad tk ?m ''input_ids'' ids)"
    by (rule call_single_Inr)
  from crop obtain k where k: "k \<le> length t" "t' = take k t" "ws = [] \<longleftrightarrow> k = length t"
    by (rule crop_text_prefix)
  from build_ids_prefix [OF build] obtain rest where
    ids: "ids = boq_token_id tk # q @ [eos_token_id tk, bot_token_id tk] @ t'
                   @ [eos_token_id tk, boa_token_id tk] @ rest"
    by blast
  have shape: "\<exists>rest. input_ids out =
                boq_token_id tk # q @ [eos_token_id tk, bot_token_id tk] @ take k t
                  @ [eos_token_id tk, boa_token_id tk] @ rest"
    if "fp \<or> model_max_length tk \<le> ?m"
  proof (cases fp)
    case True
    with ii ids k(2) show ?thesis by simp
  next
    case False
    with that have big: "model_max_length tk \<le> ?m" by simp
    from crop False have "crop_text tk False L q t a = Inr (t', ws)" by simp
    from crop_text_train [OF this]
    have "int (length q) + int (length t') + int (length a) \<le> model_max_length tk - 6"
      by auto
    moreover from build False have "length ids = length q + length t' + length a + 6"
      by (auto simp: build_ids_train)
    ultimately have "int (length ids) \<le> ?m" using big by simp
    from pad_fits [OF this, of tk "''input_ids''"] ii False ids k(2) show ?thesis by simp
  qed
  from k crop shape
  show "\<exists>k\<le>length t.
          crop_text tk fp L q t a = Inr (take k t, ws) \<and>
          (ws = [] \<longleftrightarrow> k = length t) \<and>
          (fp \<or> model_max_length tk \<le> ?m \<longrightarrow>
             (\<exists>rest. input_ids out =
                boq_token_id tk # q @ [eos_token_id tk, bot_token_id tk] @ take k t
                  @ [eos_token_id tk, boa_token_id tk] @ rest))"
    by - (rule exI [of _ k], simp)
next
  show "fst (set_pred_n_true get_substr_indices lower boa_token eos_token labels d_log lbs_true arrays generated i_sample)
       \<noteq> [] \<longleftrightarrow>
      (let idxs_boa = get_substr_indices generated boa_token
       in 1 < length idxs_boa \<or>
          (length idxs_boa = 1 \<and>
           get_substr_indices (drop (hd idxs_boa + length boa_token) generated) eos_token = []))"
  proof (cases "get_substr_indices generated boa_token")
    case Nil
    then show ?thesis by (simp add: set_pred_n_true_warnings)
  next
    case (Cons x xs)
    then show ?thesis
      by (cases xs) (auto simp: set_pred_n_true_warnings Let_def split: option.splits)
  qed
qed

theorem warnings_for_cropping_and_malformed_generations_witness:
  "call_single tk0 None False 2 7 [1, 2] [3, 4, 5, 6, 7, 8, 9, 10] [13] =
     Inr (enc_train, [CroppedForTraining 8 7]) \<and>
   (\<exists>k\<le>length [3, 4, 5, 6, 7, 8, 9, 10 :: int].
      crop_text tk0 False 2 [1, 2] [3, 4, 5, 6, 7, 8, 9, 10] [13] =
        Inr (take k [3, 4, 5, 6, 7, 8, 9, 10], [CroppedForTraining 8 7]) \<and>
      k \<noteq> length [3, 4, 5, 6, 7, 8, 9, 10 :: int] \<and>
      (\<exists>rest. input_ids enc_train =
         boq_token_id tk0 # [1, 2] @ [eos_token_id tk0, bot_token_id tk0]
           @ take k [3, 4, 5, 6, 7, 8, 9, 10] @ [eos_token_id tk0, boa_token_id tk0] @ rest)) \<and>
   fst (set_pred_n_true substr_indices lower_ascii ''<|answer|>'' ''<|endoftext|>'' [''Sports'', ''World'']
          (Some ''step 1/2'') [1] ([0, 0, 0], [0, 0, 0])
          ''<|text|>t<|endoftext|><|answer|>spo'' 1) \<noteq> []"
proof -
  have train: "call_single tk0 None False 2 7 [1, 2] [3, 4, 5, 6, 7, 8, 9, 10] [13] =
     Inr (enc_train, [CroppedForTraining 8 7])"
    by code_simp
  have boa: "substr_indices ''<|text|>t<|endoftext|><|answer|>spo'' ''<|answer|>'' = [22]"
    by code_simp
  have eos: "substr_indices (drop (22 + length ''<|answer|>'')
               ''<|text|>t<|endoftext|><|answer|>spo'') ''<|endoftext|>'' = []"
    by code_simp
  note inst = warnings_for_cropping_and_malformed_generations
    [where tk = tk0 and ml = None and fp = False and L = 2 and did = 7 and q = "[1, 2]"
       and t = "[3, 4, 5, 6, 7, 8, 9, 10]" and a = "[13]" and out = enc_train
       and ws = "[CroppedForTraining 8 7]" and get_substr_indices = substr_indices
       and lower = lower_ascii
       and boa_token = "''<|answer|>''" and eos_token = "''<|endoftext|>''"
       and labels = "[''Sports'', ''World'']" and d_log = "Some ''step 1/2''"
       and lbs_true = "[1]" and arrays = "([0, 0, 0], [0, 0, 0])"
       and generated = "''<|text|>t<|endoftext|><|answer|>spo''" and i_sample = 1]
  from inst train
  have a: "\<exists>k\<le>length [3, 4, 5, 6, 7, 8, 9, 10 :: int].
      crop_text tk0 False 2 [1, 2] [3, 4, 5, 6, 7, 8, 9, 10] [13] =
        Inr (take k [3, 4, 5, 6, 7, 8, 9, 10], [CroppedForTraining 8 7]) \<and>
      k \<noteq> length [3, 4, 5, 6, 7, 8, 9, 10 :: int] \<and>
      (\<exists>rest. input_ids enc_train =
         boq_token_id tk0 # [1, 2] @ [eos_token_id tk0, bot_token_id tk0]
           @ take k [3, 4, 5, 6, 7, 8, 9, 10] @ [eos_token_id tk0, boa_token_id tk0] @ rest)"
    by (simp only: option.case order_refl simp_thms list.distinct)
  from inst boa eos
  have b: "fst (set_pred_n_true substr_indices lower_ascii ''<|answer|>'' ''<|endoftext|>'' [''Sports'', ''World'']
          (Some ''step 1/2'') [1] ([0, 0, 0], [0, 0, 0])
          ''<|text|>t<|endoftext|><|answer|>spo'' 1) \<noteq> []"
    by (simp add: Let_def)
  from train a b show ?thesis by blast
qed

text \<open>
  Claim C6 as stated fails where \<open>pad\<close> truncates: in training mode with
  \<open>max_length = 8\<close>, a sample of two question ids, four text ids and one answer id is
  within the limit of ten, so the cropping step leaves it alone and warns of nothing;
  \<open>pad\<close> then cuts the thirteen built ids to eight, which keeps three of the four text
  ids.
\<close>

theorem silent_truncation_counterexample:
  "call_single tk0 (Some 8) False 2 7 [1, 2] [3, 4, 5, 6] [13] =
     Inr (\<lparr> input_ids = [101, 1, 2, 100, 102, 3, 4, 5],
            attention_mask = [1, 1, 1, 1, 1, 1, 1, 1],
            token_type_ids = [104, 104, 104, 104, 105, 105, 105, 105],
            position_ids = [0, 1, 2, 3, 4, 5, 6, 7],
            dataset_id = 7 \<rparr>, [])"
  by code_simp

subsection \<open>The recorded prediction\<close>

lemma store_pred_n_true_Inr:
  assumes "store_pred_n_true p lbs (preds, trues) i = Inr ((id_pred, id_true), (preds', trues'))"
  shows "id_pred = p \<and> i < length preds \<and> preds' = preds[i := p] \<and> preds' ! i = p"
  using assms by (auto simp: store_pred_n_true_def Let_def split: if_splits)

text \<open>
  When \<open>set_pred_n_true\<close> returns, the prediction it stored at \<open>i_sample\<close> is the one it
  returns, and that is -1 exactly when the generation holds several begin-of-answer
  tokens, or no end-of-sequence token after the first, or an answer that equals no label
  description after lowering; otherwise it is the index of a label whose lowered
  description is the lowered answer.
\<close>

lemma set_pred_n_true_recorded:
  assumes "set_pred_n_true get_substr_indices lower boa_token eos_token labels d_log lbs_true (preds, trues) generated i_sample
             = (ws, Inr ((id_pred, id_true), (preds', trues')))"
  shows "preds' ! i_sample = id_pred \<and>
     (let idxs_boa = get_substr_indices generated boa_token;
          answer_with_eos = drop (hd idxs_boa + length boa_token) generated;
          idxs_eot = get_substr_indices answer_with_eos eos_token;
          answer = lower (take (hd idxs_eot) answer_with_eos)
      in (id_pred = - 1 \<longleftrightarrow>
            1 < length idxs_boa \<or> idxs_eot = [] \<or> answer \<notin> set (map lower labels)) \<and>
         (id_pred \<noteq> - 1 \<longrightarrow>
            0 \<le> id_pred \<and> nat id_pred < length labels \<and>
            lower (labels ! nat id_pred) = answer))"
proof -
  let ?idxs_boa = "get_substr_indices generated boa_token"
  let ?awe = "drop (hd ?idxs_boa + length boa_token) generated"
  let ?idxs_eot = "get_substr_indices ?awe eos_token"
  let ?answer = "lower (take (hd ?idxs_eot) ?awe)"
  from assms have ne: "?idxs_boa \<noteq> []"
    by (auto simp: set_pred_n_true_def Let_def split: if_splits)
  consider (several) "1 < length ?idxs_boa"
    | (open_end) "\<not> 1 < length ?idxs_boa" "?idxs_eot = []"
    | (parsed) "\<not> 1 < length ?idxs_boa" "?idxs_eot \<noteq> []"
    by blast
  then show ?thesis
  proof cases
    case several
    with assms ne have
      "store_pred_n_true (- 1) lbs_true (preds, trues) i_sample
         = Inr ((id_pred, id_true), (preds', trues'))"
      by (auto simp: set_pred_n_true_def Let_def split: if_splits option.splits)
    from store_pred_n_true_Inr [OF this] several show ?thesis by (simp add: Let_def)
  next
    case open_end
    with assms ne have
      "store_pred_n_true (- 1) lbs_true (preds, trues) i_sample
         = Inr ((id_pred, id_true), (preds', trues'))"
      by (auto simp: set_pred_n_true_def Let_def split: if_splits)
    from store_pred_n_true_Inr [OF this] open_end show ?thesis by (simp add: Let_def)
  next
    case parsed
    with assms ne have
      "store_pred_n_true (lb2id lower labels ?answer) lbs_true (preds, trues) i_sample
         = Inr ((id_pred, id_true), (preds', trues'))"
      by (auto simp: set_pred_n_true_def Let_def split: if_splits)
    from store_pred_n_true_Inr [OF this]
    have p: "id_pred = lb2id lower labels ?answer" "preds' ! i_sample = id_pred" by simp_all
    from p(1) have "id_pred = - 1 \<longleftrightarrow> ?answer \<notin> set (map lower labels)"
      by (simp only: lb2id_sentinel)
    moreover have "0 \<le> id_pred \<and> nat id_pred < length labels \<and>
            lower (labels ! nat id_pred) = ?answer" if "id_pred \<noteq> - 1"
      using lb2id_index [of lower labels ?answer] that p(1) by simp
    ultimately show ?thesis using parsed p(2) by (simp add: Let_def)
  qed
qed

text \<open>
  Claim C5. The sentinel -1 is to be recorded for a generation with several
  begin-of-answer tokens. During the first batch the code does not get there: after the
  console warning it reads \<open>d_log\<close>, which is assigned only at the end of a batch, and
  the \<open>NameError\<close> ends the evaluation with no prediction recorded.
\<close>

theorem several_boa_in_first_batch_raises:
  "set_pred_n_true substr_indices lower_ascii ''<|answer|>'' ''<|endoftext|>'' [''Sports'', ''World''] None [1]
     ([0, 0, 0], [0, 0, 0])
     ''<|text|>t<|endoftext|><|answer|>sports<|answer|>world<|endoftext|>'' 1
   = ([GeneratedSeveralBoa 2], Inl NameError)"
  by code_simp

section \<open>Properties of TrainStrategy2PairMap\<close>

text \<open>
  Claim C9, as the code has it. For an accepted strategy \<open>__call__\<close> returns a query
  function. Unless the strategy is \<open>implicit-on-text-encode-aspect\<close> and the aspect is
  no key of the aspect dictionary, the query function returns, for every text and label
  list, one two-element list per label in the order of the labels; its second component
  is the label (followed by the aspect under \<open>implicit\<close>), and under \<open>vanilla\<close> and
  \<open>explicit\<close> its first component is the text, and \<open>map_label\<close> and \<open>map_text\<close> return
  their input.
\<close>

theorem query_gives_one_pair_per_label:
  assumes "pair_map_init sep a2a strategy = Inr self"
    and "strategy = ''implicit-on-text-encode-aspect'' \<longrightarrow> (\<exists>a tok. aspect = Some a \<and> a2a a = Some tok)"
  shows "\<exists>f. pair_map_call self aspect = Inr f \<and>
     (\<forall>txt lbs. \<exists>pairs. f txt lbs = Inr pairs \<and> length pairs = length lbs \<and>
        (\<forall>i<length lbs. \<exists>t l. pairs ! i = [t, l] \<and>
           l = (if strategy = ''implicit'' then lbs ! i @ '' '' @ py_str aspect else lbs ! i) \<and>
           (strategy \<in> {''vanilla'', ''explicit''} \<longrightarrow> t = txt))) \<and>
     (strategy \<in> {''vanilla'', ''explicit''} \<longrightarrow>
        (\<forall>x. map_label self x aspect = Inr x \<and> map_text self x aspect = Inr x))"
proof -
  from assms(1) have acc: "strategy \<in> set training_strategies"
    and self: "self = \<lparr> train_strategy = strategy, sep_token = sep, aspect2aspect_token = a2a \<rparr>"
    by (auto simp: pair_map_init_def split: if_splits)
  from acc consider "strategy = ''vanilla''" | "strategy = ''explicit''" | "strategy = ''implicit''"
    | "strategy = ''implicit-on-text-encode-aspect''" | "strategy = ''implicit-on-text-encode-sep''"
    by (auto simp: training_strategies_def)
  then show ?thesis
  proof cases
    case 1
    with self show ?thesis by (simp add: pair_map_call_def map_label_def map_text_def)
  next
    case 2
    with self show ?thesis by (simp add: pair_map_call_def map_label_def map_text_def)
  next
    case 3
    with self show ?thesis by (simp add: pair_map_call_def)
  next
    case 4
    with assms(2) obtain a tok where "aspect = Some a" "a2a a = Some tok" by blast
    with 4 self show ?thesis
      by (simp add: pair_map_call_def lookup_aspect_token_def)
  next
    case 5
    with self show ?thesis by (simp add: pair_map_call_def)
  qed
qed

theorem query_gives_one_pair_per_label_witness:
  "pair_map_init ''<|ASPECT-SEP|>'' [''topic'' \<mapsto> ''<|topic|>''] ''implicit-on-text-encode-aspect''
     = Inr (pm0 ''implicit-on-text-encode-aspect'') \<and>
   (\<exists>f. pair_map_call (pm0 ''implicit-on-text-encode-aspect'') (Some ''topic'') = Inr f \<and>
     (\<forall>txt lbs. \<exists>pairs. f txt lbs = Inr pairs \<and> length pairs = length lbs \<and>
        (\<forall>i<length lbs. \<exists>t l. pairs ! i = [t, l] \<and> l = lbs ! i)))"
proof -
  have i: "pair_map_init ''<|ASPECT-SEP|>'' [''topic'' \<mapsto> ''<|topic|>''] ''implicit-on-text-encode-aspect''
     = Inr (pm0 ''implicit-on-text-encode-aspect'')"
    by (simp add: pair_map_init_def pm0_def training_strategies_def)
  have k: "''implicit-on-text-encode-aspect'' = ''implicit-on-text-encode-aspect'' \<longrightarrow>
     (\<exists>a tok. Some ''topic'' = Some a \<and> [''topic'' \<mapsto> ''<|topic|>''] a = Some tok)"
    by simp
  from query_gives_one_pair_per_label [OF i k]
  have "\<exists>f. pair_map_call (pm0 ''implicit-on-text-encode-aspect'') (Some ''topic'') = Inr f \<and>
     (\<forall>txt lbs. \<exists>pairs. f txt lbs = Inr pairs \<and> length pairs = length lbs \<and>
        (\<forall>i<length lbs. \<exists>t l. pairs ! i = [t, l] \<and> l = lbs ! i))"
    by (elim exE conjE, intro exI conjI) (assumption, simp)
  with i show ?thesis by (rule conjI)
qed

text \<open>
  Claim C9 as stated fails for the strategy \<open>implicit-on-text-encode-aspect\<close> when the
  aspect is left at its default \<open>None\<close>: \<open>__call__\<close> returns a query function, and that
  raises \<open>KeyError\<close> on a list of one label.
\<close>

theorem query_without_aspect_counterexample:
  "pair_map_init ''<|ASPECT-SEP|>'' [''topic'' \<mapsto> ''<|topic|>''] ''implicit-on-text-encode-aspect''
     = Inr (pm0 ''implicit-on-text-encode-aspect'') \<and>
   \<not> isl (pair_map_call (pm0 ''implicit-on-text-encode-aspect'') None) \<and>
   projr (pair_map_call (pm0 ''implicit-on-text-encode-aspect'') None) ''some text'' [''sports'']
     = Inl KeyError"
  by (simp add: pair_map_init_def pm0_def training_strategies_def pair_map_call_def
      lookup_aspect_token_def)

section \<open>Properties of the doubled positional embedding\<close>

lemma length_ZsGPT2Model_wpe: "length (ZsGPT2Model_wpe n init) = 2 * n"
  by (simp add: ZsGPT2Model_wpe_def nn_Embedding_def)

lemma assign_rows_block:
  assumes "length src = hi - lo" "lo \<le> hi" "hi \<le> length weight"
  shows "assign_rows lo hi src weight = Inr (take lo weight @ src @ drop hi weight)"
  using assms by (simp add: assign_rows_def Let_def)

text \<open>
  A debugging model of four positions has eight rows, not 2048: nothing is copied and
  the warning is emitted.
\<close>

lemma from_pretrained_small:
  "from_pretrained False 4 (\<lambda>i. (0 :: int)) int = Inr ([0, 0, 0, 0, 0, 0, 0, 0], [WrongModelSize])"
  by code_simp

text \<open>
  Claim C3. The matrix that \<open>ZsGPT2Model\<close> allocates has twice
  \<open>max_position_embeddings\<close> rows. When it has 2048 rows, \<open>from_pretrained\<close> with
  \<open>is_zs_gpt2 = False\<close> returns without a warning a matrix of 2048 rows whose rows 0 to
  1023 and whose rows 1024 to 2047 are both the pretrained positional embedding.
\<close>

theorem doubled_embedding_gets_pretrained_rows_twice:
  "length (ZsGPT2Model_wpe max_position_embeddings init) = 2 * max_position_embeddings \<and>
   (length (ZsGPT2Model_wpe max_position_embeddings init) = 2048 \<longrightarrow>
      (\<exists>w. from_pretrained False max_position_embeddings init pretrained = Inr (w, []) \<and>
           length w = 2048 \<and>
           take 1024 w = nn_Embedding max_position_embeddings pretrained \<and>
           drop 1024 w = nn_Embedding max_position_embeddings pretrained \<and>
           (\<forall>i<1024. w ! i = pretrained i \<and> w ! (1024 + i) = pretrained i)))"
proof (intro conjI impI)
  show "length (ZsGPT2Model_wpe max_position_embeddings init) = 2 * max_position_embeddings"
    by (rule length_ZsGPT2Model_wpe)
next
  let ?md = "ZsGPT2Model_wpe max_position_embeddings init"
  let ?pre = "nn_Embedding max_position_embeddings pretrained"
  assume len: "length ?md = 2048"
  then have n: "max_position_embeddings = 1024" by (simp add: length_ZsGPT2Model_wpe)
  then have lpre: "length ?pre = 1024" by (simp add: nn_Embedding_def)
  let ?w1 = "take 0 ?md @ ?pre @ drop 1024 ?md"
  let ?w2 = "take 1024 ?w1 @ ?pre @ drop 2048 ?w1"
  have a1: "assign_rows 0 1024 ?pre ?md = Inr ?w1"
    using lpre len by (intro assign_rows_block) simp_all
  have l1: "length ?w1 = 2048" using lpre len by simp
  have a2: "assign_rows 1024 2048 ?pre ?w1 = Inr ?w2"
    using lpre l1 by (intro assign_rows_block) simp_all
  have w2: "?w2 = ?pre @ ?pre" using lpre l1 len by simp
  have ret: "from_pretrained False max_position_embeddings init pretrained = Inr (?pre @ ?pre, [])"
    unfolding from_pretrained_def Let_def using len a1 a2 w2 by simp
  have nth: "(?pre @ ?pre) ! i = pretrained i \<and> (?pre @ ?pre) ! (1024 + i) = pretrained i"
    if "i < 1024" for i
    using that lpre n by (simp add: nth_append nn_Embedding_def)
  from ret lpre nth
  show "\<exists>w. from_pretrained False max_position_embeddings init pretrained = Inr (w, []) \<and>
           length w = 2048 \<and> take 1024 w = ?pre \<and> drop 1024 w = ?pre \<and>
           (\<forall>i<1024. w ! i = pretrained i \<and> w ! (1024 + i) = pretrained i)"
    by (intro exI [of _ "?pre @ ?pre"]) simp
qed

theorem doubled_embedding_gets_pretrained_rows_twice_witness:
  "length (ZsGPT2Model_wpe 1024 (\<lambda>i. (0 :: int))) = 2048 \<and>
   (\<exists>w. from_pretrained False 1024 (\<lambda>i. (0 :: int)) int = Inr (w, []) \<and>
        length w = 2048 \<and>
        take 1024 w = nn_Embedding 1024 int \<and>
        drop 1024 w = nn_Embedding 1024 int \<and>
        (\<forall>i<1024. w ! i = int i \<and> w ! (1024 + i) = int i))"
proof -
  have len: "length (ZsGPT2Model_wpe 1024 (\<lambda>i. (0 :: int))) = 2048"
    by (simp add: ZsGPT2Model_wpe_def nn_Embedding_def)
  from doubled_embedding_gets_pretrained_rows_twice [of 1024 "\<lambda>i. (0 :: int)" int] len
  show ?thesis by blast
qed

section \<open>Properties of eval\_res2df\<close>

text \<open>A report given as text, as the library returns it by default, cannot be read.\<close>

lemma eval_res2df_text:
  "eval_res2df float_lit isclose round_ndigits (ReportText s) pretty = Inl TypeError"
  by (simp add: eval_res2df_def)

text \<open>
  A report dictionary with neither \<open>accuracy\<close> nor \<open>micro avg\<close> raises \<open>KeyError\<close>, and one
  whose \<open>micro avg\<close> holds nothing but \<open>support\<close> raises \<open>IndexError\<close>.
\<close>

lemma eval_res2df_no_key:
  "map_of rows ''micro avg'' = None \<Longrightarrow>
     eval_res2df float_lit isclose round_ndigits (ReportDict None rows) pretty = Inl KeyError"
  by (simp add: eval_res2df_def)

lemma eval_res2df_no_metric:
  "map_of rows ''micro avg'' = Some items \<Longrightarrow>
   map snd (filter (\<lambda>(k, v). k \<noteq> ''support'') items) = [] \<Longrightarrow>
     eval_res2df float_lit isclose round_ndigits (ReportDict None rows) pretty = Inl IndexError"
  by (simp add: eval_res2df_def)

text \<open>
  Claim C10. For a report dictionary with the key \<open>accuracy\<close>, \<open>eval_res2df\<close> returns the
  value under that key. For one without it, whose \<open>micro avg\<close> holds values other than
  \<open>support\<close>, it returns the first of these values when all of them are close to the
  first by \<open>math.isclose\<close> with \<open>abs_tol=1e-8\<close>, and fails its \<open>assert\<close> otherwise. What
  it returns is the accuracy rounded by \<open>round(acc, 3)\<close> when \<open>pretty\<close> is true and the
  accuracy itself when \<open>pretty\<close> is false.
\<close>

theorem eval_res2df_accuracy:
  "(accuracy = Some a \<longrightarrow>
      eval_res2df float_lit isclose round_ndigits (ReportDict accuracy rows) pretty
        = Inr (if pretty then round_ndigits a 3 else a)) \<and>
   (accuracy = None \<and> map_of rows ''micro avg'' = Some items \<and>
    vals = map snd (filter (\<lambda>(k, v). k \<noteq> ''support'') items) \<and> vals \<noteq> [] \<longrightarrow>
      eval_res2df float_lit isclose round_ndigits (ReportDict accuracy rows) pretty
        = (if list_all (\<lambda>v. isclose v (hd vals) (float_lit 1 (- 8))) vals
           then Inr (if pretty then round_ndigits (hd vals) 3 else hd vals)
           else Inl AssertionError))"
proof (intro conjI impI)
  assume "accuracy = Some a"
  then show "eval_res2df float_lit isclose round_ndigits (ReportDict accuracy rows) pretty
        = Inr (if pretty then round_ndigits a 3 else a)"
    by (simp add: eval_res2df_def)
next
  assume a: "accuracy = None \<and> map_of rows ''micro avg'' = Some items \<and>
    vals = map snd (filter (\<lambda>(k, v). k \<noteq> ''support'') items) \<and> vals \<noteq> []"
  then have acc: "accuracy = None" and mo: "map_of rows ''micro avg'' = Some items"
    and v: "vals = map snd (filter (\<lambda>(k, v). k \<noteq> ''support'') items)" and ne: "vals \<noteq> []"
    by blast+
  have hd: "vals ! 0 = hd vals" by (rule hd_conv_nth [OF ne, symmetric])
  from acc mo
  have "eval_res2df float_lit isclose round_ndigits (ReportDict accuracy rows) pretty
        = (if \<not> list_all (\<lambda>v. isclose v (vals ! 0) (float_lit 1 (- 8))) vals
           then Inl AssertionError
           else if vals = [] then Inl IndexError
           else Inr (if pretty then round_ndigits (vals ! 0) 3 else vals ! 0))"
    unfolding v by (simp add: eval_res2df_def Let_def)
  with ne hd
  show "eval_res2df float_lit isclose round_ndigits (ReportDict accuracy rows) pretty
        = (if list_all (\<lambda>v. isclose v (hd vals) (float_lit 1 (- 8))) vals
           then Inr (if pretty then round_ndigits (hd vals) 3 else hd vals)
           else Inl AssertionError)"
    by simp
qed

text \<open>
  The witness takes the double-precision numbers and reports of one label. The first
  report holds the accuracy \<open>0.0625\<close>, which \<open>round\<close> takes to the double nearest to
  \<open>0.062\<close>. The second has no accuracy; its micro average holds \<open>0.75\<close>,
  \<open>0.75 + 2 ** -30\<close> and \<open>0.75\<close>, which differ by less than \<open>1e-8\<close>, and the support 4.
  The third report, with a recall of \<open>0.75 + 2 ** -20\<close>, fails the \<open>assert\<close>.
\<close>

theorem eval_res2df_accuracy_witness:
  "eval_res2df double_lit isclose_double round_double
     (ReportDict (Some (1 / 16))
        [(''sports'', [(''precision'', 1 / 16), (''recall'', 1), (''f1-score'', 1 / 8),
                       (''support'', 16)]),
         (''macro avg'', [(''precision'', 1 / 16), (''recall'', 1), (''f1-score'', 1 / 8),
                          (''support'', 16)])]) True
     = Inr (1116892707587883 / 18014398509481984) \<and>
   eval_res2df double_lit isclose_double round_double
     (ReportDict (Some (1 / 16))
        [(''sports'', [(''precision'', 1 / 16), (''recall'', 1), (''f1-score'', 1 / 8),
                       (''support'', 16)]),
         (''macro avg'', [(''precision'', 1 / 16), (''recall'', 1), (''f1-score'', 1 / 8),
                          (''support'', 16)])]) False
     = Inr (1 / 16) \<and>
   eval_res2df double_lit isclose_double round_double
     (ReportDict None
        [(''sports'', [(''precision'', 3 / 4), (''recall'', 3 / 4 + 1 / 2 ^ 30),
                       (''f1-score'', 3 / 4), (''support'', 4)]),
         (''micro avg'', [(''precision'', 3 / 4), (''recall'', 3 / 4 + 1 / 2 ^ 30),
                          (''f1-score'', 3 / 4), (''support'', 4)])]) True
     = Inr (3 / 4) \<and>
   eval_res2df double_lit isclose_double round_double
     (ReportDict None
        [(''sports'', [(''precision'', 3 / 4), (''recall'', 3 / 4 + 1 / 2 ^ 20),
                       (''f1-score'', 3 / 4), (''support'', 4)]),
         (''micro avg'', [(''precision'', 3 / 4), (''recall'', 3 / 4 + 1 / 2 ^ 20),
                          (''f1-score'', 3 / 4), (''support'', 4)])]) True
     = Inl AssertionError"
proof -
  let ?low = "[(''precision'', 1 / 16), (''recall'', 1), (''f1-score'', 1 / 8),
               (''support'', 16 :: rat)]"
  let ?near = "[(''precision'', 3 / 4), (''recall'', 3 / 4 + 1 / 2 ^ 30),
                (''f1-score'', 3 / 4), (''support'', 4 :: rat)]"
  let ?far = "[(''precision'', 3 / 4), (''recall'', 3 / 4 + 1 / 2 ^ 20),
               (''f1-score'', 3 / 4), (''support'', 4 :: rat)]"
  have r16: "round_double (1 / 16) 3 = 1116892707587883 / 18014398509481984" by code_simp
  have r34: "round_double (3 / 4) 3 = 3 / 4" by code_simp
  have near: "list_all (\<lambda>v. isclose_double v (3 / 4) (double_lit 1 (- 8)))
                [3 / 4, 3 / 4 + 1 / 2 ^ 30, 3 / 4]"
    by code_simp
  have far: "\<not> list_all (\<lambda>v. isclose_double v (3 / 4) (double_lit 1 (- 8)))
                [3 / 4, 3 / 4 + 1 / 2 ^ 20, 3 / 4]"
    by code_simp
  note acc = eval_res2df_accuracy
    [where accuracy = "Some (1 / 16)" and a = "1 / 16" and float_lit = double_lit
       and isclose = isclose_double and round_ndigits = round_double
       and rows = "[(''sports'', ?low), (''macro avg'', ?low)]",
     THEN conjunct1, rule_format, OF refl]
  note micro = eval_res2df_accuracy
    [where accuracy = None and float_lit = double_lit and isclose = isclose_double
       and round_ndigits = round_double and pretty = True, THEN conjunct2, rule_format]
  have a: "eval_res2df double_lit isclose_double round_double
     (ReportDict (Some (1 / 16)) [(''sports'', ?low), (''macro avg'', ?low)]) True
     = Inr (1116892707587883 / 18014398509481984)"
    using acc [of True] r16 by simp
  have b: "eval_res2df double_lit isclose_double round_double
     (ReportDict (Some (1 / 16)) [(''sports'', ?low), (''macro avg'', ?low)]) False
     = Inr (1 / 16)"
    using acc [of False] by simp
  have c: "eval_res2df double_lit isclose_double round_double
     (ReportDict None [(''sports'', ?near), (''micro avg'', ?near)]) True = Inr (3 / 4)"
    using micro [of "[(''sports'', ?near), (''micro avg'', ?near)]" ?near
        "[3 / 4, 3 / 4 + 1 / 2 ^ 30, 3 / 4]"]
      near r34
    by simp
  have d: "eval_res2df double_lit isclose_double round_double
     (ReportDict None [(''sports'', ?far), (''micro avg'', ?far)]) True = Inl AssertionError"
    using micro [of "[(''sports'', ?far), (''micro avg'', ?far)]" ?far
        "[3 / 4, 3 / 4 + 1 / 2 ^ 20, 3 / 4]"] far
    by simp
  from a b c d show ?thesis by (intro conjI)
qed

section \<open>Properties of the loop over the datasets\<close>

lemma evaluate_trained_writes:
  assumes "evaluate_trained in_domain path_dir run datasets = (effects, outcome)"
    and "e \<in> set effects"
  shows "\<exists>d\<in>set datasets. \<exists>trues preds.
           out_of_domain d = (\<not> in_domain) \<and> run d = Inr (trues, preds) \<and>
           e = WriteCsv path_dir (dnm d @ ''.csv'') trues preds
                 (- 1 # map int [0..<length (test_labels d)])
                 (''Label not in dataset'' # test_labels d)"
  using assms
proof (induction datasets)
  case Nil
  then show ?case by simp
next
  case (Cons d ds)
  show ?case
  proof (cases "out_of_domain d = (\<not> in_domain) \<and> dnm d = ''multi_eurlex''")
    case False
    with Cons.prems have "evaluate_trained in_domain path_dir run ds = (effects, outcome)"
      by (auto split: if_splits)
    from Cons.IH [OF this Cons.prems(2)] show ?thesis by auto
  next
    case True
    with Cons.prems show ?thesis
      by (cases "run d") (auto simp: py_range_def)
  qed
qed

lemma evaluate_trained_reaches:
  assumes "\<forall>x\<in>set pre. out_of_domain x = (\<not> in_domain) \<longrightarrow> dnm x \<noteq> ''multi_eurlex''"
    and "out_of_domain d = (\<not> in_domain)" "dnm d = ''multi_eurlex''"
    and "run d = Inr (trues, preds)"
  shows "evaluate_trained in_domain path_dir run (pre @ d # post) =
           ([WriteCsv path_dir (dnm d @ ''.csv'') trues preds
               (- 1 # map int [0..<length (test_labels d)])
               (''Label not in dataset'' # test_labels d)], Exited 1)"
  using assms(1)
proof (induction pre)
  case Nil
  from assms(2-4) show ?case by (simp add: py_range_def)
next
  case (Cons x pre)
  then show ?case by auto
qed

text \<open>
  The two lemmas above are all the writing there is: every file belongs to a dataset of
  the selected domain whose evaluation returned, is named after it and holds the report
  over the label -1 and the indices of all its labels; and only the first
  \<open>multi_eurlex\<close> of the selected domain gets one.
\<close>

text \<open>
  Claim C7. A file is to be written for every dataset of the selected domain. The loop
  goes through all of them, but the \<open>continue\<close> left in for debugging skips every
  dataset not named \<open>multi_eurlex\<close>, and the \<open>exit(1)\<close> after the first file ends the
  process. With the four datasets of the example, the in-domain evaluation writes no
  file for \<open>ag_news\<close> and returns; the out-of-domain evaluation writes
  \<open>multi_eurlex.csv\<close> and exits, with no file for \<open>patent\<close>, which it skipped, nor for
  \<open>yelp\<close>, which it never reached.
\<close>

theorem datasets_left_without_a_file:
  "evaluate_trained True ''evaluations'' run0 datasets0 = ([], Returned) \<and>
   evaluate_trained False ''evaluations'' run0 datasets0 =
     ([WriteCsv ''evaluations'' ''multi_eurlex.csv'' [0, 1, 1] [0, - 1, 1] [- 1, 0, 1]
         [''Label not in dataset'', ''law'', ''trade'']], Exited 1)"
  by code_simp

end
